theory Spec2Isabelle
  imports Main
begin

section \<open>Shared values of the coding library\<close>

text \<open>
  The project imports \<^verbatim>\<open>Codes\<close> from the library \<^verbatim>\<open>core_data_modules\<close>. The two
  members read by the sources are string constants of that library:
  \<^verbatim>\<open>Codes.NOT_CODED = "NC"\<close> and \<^verbatim>\<open>Codes.STOP = "STOP"\<close>.
\<close>

definition NOT_CODED :: string where
  "NOT_CODED = ''NC''"

definition STOP :: string where
  "STOP = ''STOP''"

text \<open>
  Exceptions that the modelled code can raise. \<open>KeyError\<close> carries the key that was
  missing.
\<close>

datatype error = AssertionError | KeyError string

section \<open>Python string builtins used by \<^verbatim>\<open>configuration/coding_plans.py\<close>\<close>

text \<open>\<^verbatim>\<open>str(n)\<close> for an integer: decimal digits, a leading minus sign when negative.\<close>

definition digit_char :: "nat \<Rightarrow> char" where
  "digit_char d = ''0123456789'' ! (d mod 10)"

fun str_nat :: "nat \<Rightarrow> string" where
  "str_nat n = (if n < 10 then [digit_char n] else str_nat (n div 10) @ [digit_char (n mod 10)])"

declare str_nat.simps [simp del]

definition str_int :: "int \<Rightarrow> string" where
  "str_int i = (if i < 0 then CHR ''-'' # str_nat (nat (- i)) else str_nat (nat i))"

text \<open>
  \<^verbatim>\<open>s.replace(old, new)\<close>: every non-overlapping occurrence of \<open>old\<close>, found from the
  left, is replaced. With an empty \<open>old\<close> Python puts \<open>new\<close> before every character and at
  the end.
\<close>

function replace_scan :: "string \<Rightarrow> string \<Rightarrow> string \<Rightarrow> string" where
  "replace_scan old new s =
     (if s = [] \<or> old = [] then s
      else if take (length old) s = old then new @ replace_scan old new (drop (length old) s)
      else hd s # replace_scan old new (tl s))"
  by pat_completeness auto
termination
  by (relation "measure (\<lambda>(old, new, s). length s)") auto

declare replace_scan.simps [simp del]

definition py_replace :: "string \<Rightarrow> string \<Rightarrow> string \<Rightarrow> string" where
  "py_replace s old new =
     (if old = [] then new @ concat (map (\<lambda>c. c # new) s) else replace_scan old new s)"

text \<open>\<^verbatim>\<open>s.lower()\<close> on the ASCII letters (all file names of the catalog are ASCII).\<close>

definition lower_char :: "char \<Rightarrow> char" where
  "lower_char c =
     (case map_of (zip ''ABCDEFGHIJKLMNOPQRSTUVWXYZ'' ''abcdefghijklmnopqrstuvwxyz'') c of
        None \<Rightarrow> c
      | Some d \<Rightarrow> d)"

definition py_lower :: "string \<Rightarrow> string" where
  "py_lower s = map lower_char s"

section \<open>The two local cleaner composites\<close>

text \<open>
  \<^verbatim>\<open>swahili.DemographicCleaner.clean_age\<close> is a library function; it is a parameter here.
  Python is dynamically typed: the function yields either an \<^verbatim>\<open>int\<close> or some other
  object (the library uses the string \<^verbatim>\<open>Codes.NOT_CODED\<close>). The test
  \<^verbatim>\<open>type(age) == int\<close> is the constructor test.
\<close>

datatype age_value = Age_int int | Age_str string

definition clean_age_with_range_filter :: "(string \<Rightarrow> age_value) \<Rightarrow> string \<Rightarrow> string" where
  "clean_age_with_range_filter clean_age text =
     (let age = clean_age text in
      case age of
        Age_int a \<Rightarrow> if 10 \<le> a \<and> a < 100 then str_int a else NOT_CODED
      | Age_str _ \<Rightarrow> NOT_CODED)"

text \<open>
  \<^verbatim>\<open>somali.DemographicCleaner.clean_mogadishu_sub_district\<close> and
  \<^verbatim>\<open>clean_somalia_district\<close> are library functions from text to a code string; they are
  parameters here.
\<close>

definition clean_district_if_no_mogadishu_sub_district ::
  "(string \<Rightarrow> string) \<Rightarrow> (string \<Rightarrow> string) \<Rightarrow> string \<Rightarrow> string" where
  "clean_district_if_no_mogadishu_sub_district clean_mogadishu_sub_district clean_somalia_district text =
     (let mogadishu_sub_district = clean_mogadishu_sub_district text in
      if mogadishu_sub_district = NOT_CODED then clean_somalia_district text
      else NOT_CODED)"

text \<open>
  Stand-ins for the library cleaners, used only to run the composites on concrete texts.
  Each follows the library's contract for a cleaner: a text that it recognises maps to a
  code, every other text maps to \<open>NOT_CODED\<close>. \<open>digits_clean_age\<close> reads a text made of
  decimal digits as its number; the two table cleaners recognise the listed names.
\<close>

definition digit_value :: "char \<Rightarrow> nat option" where
  "digit_value c = map_of (zip ''0123456789'' [0, 1, 2, 3, 4, 5, 6, 7, 8, 9]) c"

fun digits_number :: "nat \<Rightarrow> string \<Rightarrow> nat option" where
  "digits_number acc [] = Some acc"
| "digits_number acc (c # cs) =
     (case digit_value c of None \<Rightarrow> None | Some d \<Rightarrow> digits_number (10 * acc + d) cs)"

definition digits_clean_age :: "string \<Rightarrow> age_value" where
  "digits_clean_age text =
     (if text = [] then Age_str NOT_CODED
      else case digits_number 0 text of
             None \<Rightarrow> Age_str NOT_CODED
           | Some n \<Rightarrow> Age_int (int n))"

definition table_clean_mogadishu_sub_district :: "string \<Rightarrow> string" where
  "table_clean_mogadishu_sub_district text =
     (if text \<in> set [''hodan'', ''wadajir''] then text else NOT_CODED)"

definition table_clean_somalia_district :: "string \<Rightarrow> string" where
  "table_clean_somalia_district text =
     (if text \<in> set [''baidoa'', ''kismayo'', ''hodan''] then text else NOT_CODED)"

section \<open>The coding-plan data model\<close>

text \<open>
  The classes \<^verbatim>\<open>CodingModes\<close>, \<^verbatim>\<open>CodingConfiguration\<close> and \<^verbatim>\<open>CodingPlan\<close> are plain
  value objects built with keyword arguments. A keyword that a call leaves out is \<open>None\<close>
  here. Objects that the catalog only refers to are named by a constructor: the members of
  \<^verbatim>\<open>CodeSchemes\<close>, the cleaners, the fold strategies (\<open>List_of_labels s\<close> is the closure
  \<^verbatim>\<open>lambda x, y: FoldStrategies.list_of_labels(s, x, y)\<close>) and the imputation functions.
\<close>

datatype CodingModes = SINGLE | MULTIPLE

datatype CodeSchemes =
    S01E01 | S01E02 | S01E03 | S01E04
  | SLD_S01E01 | SLD_S01E02 | SLD_S01E03 | SLD_S01E04 | SLD_S01E05 | SLD_S01_CLOSEOUT
  | GENDER | AGE | AGE_CATEGORY | RECENTLY_DISPLACED | HOUSEHOLD_LANGUAGE
  | MOGADISHU_SUB_DISTRICT | SOMALIA_DISTRICT | SOMALIA_REGION | SOMALIA_STATE | SOMALIA_ZONE

datatype cleaner =
    Clean_gender
  | Clean_age_with_range_filter
  | Clean_yes_no
  | Clean_mogadishu_sub_district
  | Clean_district_if_no_mogadishu_sub_district

datatype FoldStrategies =
    Assert_label_ids_equal
  | List_of_labels CodeSchemes
  | Assert_equal
  | Concatenate

datatype imputation = Impute_age_category | Impute_somalia_location_codes

text \<open>
  Modelled from the spec: the class declaration of \<^verbatim>\<open>CodingConfiguration\<close> is not among
  the sources; \<open>include_in_theme_distribution\<close> is "boolean, default true", which is the
  value of \<open>default_include_in_theme_distribution\<close>.
\<close>

definition default_include_in_theme_distribution :: bool where
  "default_include_in_theme_distribution = True"

record CodingConfiguration =
  coding_mode :: CodingModes
  code_scheme :: CodeSchemes
  cleaner :: "cleaner option"
  coded_field :: string
  analysis_file_key :: string
  fold_strategy :: FoldStrategies
  include_in_theme_distribution :: bool

record 'code CodingPlan =
  dataset_name :: "string option"
  raw_field :: string
  time_field :: string
  run_id_field :: "string option"
  coda_filename :: string
  icr_filename :: "string option"
  coding_configurations :: "CodingConfiguration list"
  code_imputation_function :: "imputation option"
  ws_code :: 'code
  raw_field_fold_strategy :: FoldStrategies

text \<open>
  \<^verbatim>\<open>CodeSchemes.WS_CORRECT_DATASET_SCHEME\<close> is loaded from a file that is not among the
  sources. It is a parameter: a table from match values to codes.
  \<^verbatim>\<open>get_code_with_match_value\<close> raises when the table has no code for the match value.
\<close>

type_synonym 'code ws_scheme = "string \<rightharpoonup> 'code"

definition get_code_with_match_value :: "'code ws_scheme \<Rightarrow> string \<Rightarrow> error + 'code" where
  "get_code_with_match_value scheme match_value =
     (case scheme match_value of None \<Rightarrow> Inl (KeyError match_value) | Some code \<Rightarrow> Inr code)"

text \<open>
  A Python list display evaluates its elements from left to right; the first element that
  raises ends the evaluation with that exception.
\<close>

fun list_display :: "(error + 'a) list \<Rightarrow> error + 'a list" where
  "list_display [] = Inr []"
| "list_display (Inl e # _) = Inl e"
| "list_display (Inr x # rest) =
     (case list_display rest of Inl e \<Rightarrow> Inl e | Inr xs \<Rightarrow> Inr (x # xs))"

section \<open>The plan catalogs of \<^verbatim>\<open>configuration/coding_plans.py\<close>\<close>

definition make_rqa_coding_plan ::
  "'code ws_scheme \<Rightarrow> string \<Rightarrow> CodeSchemes \<Rightarrow> string \<Rightarrow> string \<Rightarrow> error + 'code CodingPlan" where
  "make_rqa_coding_plan ws episode_name scheme ws_match_value coda =
     (case get_code_with_match_value ws ws_match_value of
        Inl e \<Rightarrow> Inl e
      | Inr code \<Rightarrow> Inr
          \<lparr>dataset_name = Some (py_replace episode_name ''rqa_'' []),
           raw_field = episode_name @ ''_raw'',
           time_field = ''sent_on'',
           run_id_field = Some (episode_name @ ''_run_id''),
           coda_filename = coda @ ''.json'',
           icr_filename = Some (py_lower coda @ ''.csv''),
           coding_configurations = [
             \<lparr>coding_mode = MULTIPLE,
              code_scheme = scheme,
              cleaner = None,
              coded_field = episode_name @ ''_coded'',
              analysis_file_key = episode_name,
              fold_strategy = List_of_labels scheme,
              include_in_theme_distribution = default_include_in_theme_distribution\<rparr>],
           code_imputation_function = None,
           ws_code = code,
           raw_field_fold_strategy = Concatenate\<rparr>)"

text \<open>
  The \<^verbatim>\<open>assert\<close> of the else-branch is modelled as Python runs it by default, with
  assertions enabled: a false condition raises \<^verbatim>\<open>AssertionError\<close> before the list of that
  branch is built.
\<close>

definition get_rqa_coding_plans :: "'code ws_scheme \<Rightarrow> string \<Rightarrow> error + 'code CodingPlan list" where
  "get_rqa_coding_plans ws pipeline_name =
     (if pipeline_name = ''SSF-DCF'' then
        list_display [
          make_rqa_coding_plan ws ''rqa_dcf_s01e01'' S01E01 ''ssf dcf s01e01'' ''SSF_DCF_s01e01'',
          make_rqa_coding_plan ws ''rqa_dcf_s01e02'' S01E02 ''ssf dcf s01e02'' ''SSF_DCF_s01e02'',
          make_rqa_coding_plan ws ''rqa_dcf_s01e03'' S01E03 ''ssf dcf s01e03'' ''SSF_DCF_s01e03'',
          make_rqa_coding_plan ws ''rqa_dcf_s01e04'' S01E04 ''ssf dcf s01e04'' ''SSF_DCF_s01e04'']
      else if pipeline_name \<noteq> ''SSF-SLD'' then Inl AssertionError
      else
        list_display [
          make_rqa_coding_plan ws ''rqa_sld_s01e01'' SLD_S01E01 ''ssf sld s01e01'' ''SSF_SLD_s01e01'',
          make_rqa_coding_plan ws ''rqa_sld_s01e02'' SLD_S01E02 ''ssf sld s01e02'' ''SSF_SLD_s01e02'',
          make_rqa_coding_plan ws ''rqa_sld_s01e03'' SLD_S01E03 ''ssf sld s01e03'' ''SSF_SLD_s01e03'',
          make_rqa_coding_plan ws ''rqa_sld_s01e04'' SLD_S01E04 ''ssf sld s01e04'' ''SSF_SLD_s01e04'',
          make_rqa_coding_plan ws ''rqa_sld_s01e05'' SLD_S01E05 ''ssf sld s01e05'' ''SSF_SLD_s01e05'',
          make_rqa_coding_plan ws ''rqa_sld_s01_closeout'' SLD_S01_CLOSEOUT ''ssf sld s01 closeout''
            ''SSF_SLD_s01_closeout''])"

text \<open>
  The demographic plans give no \<^verbatim>\<open>dataset_name\<close>, \<^verbatim>\<open>run_id_field\<close> or
  \<^verbatim>\<open>icr_filename\<close>. The only keyword argument whose evaluation can raise is
  \<^verbatim>\<open>ws_code\<close>.
\<close>

definition gender_plan :: "'code ws_scheme \<Rightarrow> error + 'code CodingPlan" where
  "gender_plan ws =
     (case get_code_with_match_value ws ''gender'' of
        Inl e \<Rightarrow> Inl e
      | Inr code \<Rightarrow> Inr
          \<lparr>dataset_name = None,
           raw_field = ''gender_raw'',
           time_field = ''gender_time'',
           run_id_field = None,
           coda_filename = ''IMAQAL_gender.json'',
           icr_filename = None,
           coding_configurations = [
             \<lparr>coding_mode = SINGLE,
              code_scheme = GENDER,
              cleaner = Some Clean_gender,
              coded_field = ''gender_coded'',
              analysis_file_key = ''gender'',
              fold_strategy = Assert_label_ids_equal,
              include_in_theme_distribution = default_include_in_theme_distribution\<rparr>],
           code_imputation_function = None,
           ws_code = code,
           raw_field_fold_strategy = Assert_equal\<rparr>)"

definition age_plan :: "'code ws_scheme \<Rightarrow> error + 'code CodingPlan" where
  "age_plan ws =
     (case get_code_with_match_value ws ''age'' of
        Inl e \<Rightarrow> Inl e
      | Inr code \<Rightarrow> Inr
          \<lparr>dataset_name = None,
           raw_field = ''age_raw'',
           time_field = ''age_time'',
           run_id_field = None,
           coda_filename = ''IMAQAL_age.json'',
           icr_filename = None,
           coding_configurations = [
             \<lparr>coding_mode = SINGLE,
              code_scheme = AGE,
              cleaner = Some Clean_age_with_range_filter,
              coded_field = ''age_coded'',
              analysis_file_key = ''age'',
              fold_strategy = Assert_label_ids_equal,
              include_in_theme_distribution = False\<rparr>,
             \<lparr>coding_mode = SINGLE,
              code_scheme = AGE_CATEGORY,
              cleaner = None,
              coded_field = ''age_category_coded'',
              analysis_file_key = ''age_category'',
              fold_strategy = Assert_label_ids_equal,
              include_in_theme_distribution = default_include_in_theme_distribution\<rparr>],
           code_imputation_function = Some Impute_age_category,
           ws_code = code,
           raw_field_fold_strategy = Assert_equal\<rparr>)"

definition recently_displaced_plan :: "'code ws_scheme \<Rightarrow> error + 'code CodingPlan" where
  "recently_displaced_plan ws =
     (case get_code_with_match_value ws ''recently displaced'' of
        Inl e \<Rightarrow> Inl e
      | Inr code \<Rightarrow> Inr
          \<lparr>dataset_name = None,
           raw_field = ''recently_displaced_raw'',
           time_field = ''recently_displaced_time'',
           run_id_field = None,
           coda_filename = ''IMAQAL_recently_displaced.json'',
           icr_filename = None,
           coding_configurations = [
             \<lparr>coding_mode = SINGLE,
              code_scheme = RECENTLY_DISPLACED,
              cleaner = Some Clean_yes_no,
              coded_field = ''recently_displaced_coded'',
              analysis_file_key = ''recently_displaced'',
              fold_strategy = Assert_label_ids_equal,
              include_in_theme_distribution = default_include_in_theme_distribution\<rparr>],
           code_imputation_function = None,
           ws_code = code,
           raw_field_fold_strategy = Assert_equal\<rparr>)"

definition household_language_plan :: "'code ws_scheme \<Rightarrow> error + 'code CodingPlan" where
  "household_language_plan ws =
     (case get_code_with_match_value ws ''hh language'' of
        Inl e \<Rightarrow> Inl e
      | Inr code \<Rightarrow> Inr
          \<lparr>dataset_name = None,
           raw_field = ''household_language_raw'',
           time_field = ''household_language_time'',
           run_id_field = None,
           coda_filename = ''IMAQAL_household_language.json'',
           icr_filename = None,
           coding_configurations = [
             \<lparr>coding_mode = SINGLE,
              code_scheme = HOUSEHOLD_LANGUAGE,
              cleaner = None,
              coded_field = ''household_language_coded'',
              analysis_file_key = ''household_language'',
              fold_strategy = Assert_label_ids_equal,
              include_in_theme_distribution = default_include_in_theme_distribution\<rparr>],
           code_imputation_function = None,
           ws_code = code,
           raw_field_fold_strategy = Assert_equal\<rparr>)"

definition location_plan :: "'code ws_scheme \<Rightarrow> error + 'code CodingPlan" where
  "location_plan ws =
     (case get_code_with_match_value ws ''location'' of
        Inl e \<Rightarrow> Inl e
      | Inr code \<Rightarrow> Inr
          \<lparr>dataset_name = None,
           raw_field = ''location_raw'',
           time_field = ''location_time'',
           run_id_field = None,
           coda_filename = ''IMAQAL_location.json'',
           icr_filename = None,
           coding_configurations = [
             \<lparr>coding_mode = SINGLE,
              code_scheme = MOGADISHU_SUB_DISTRICT,
              cleaner = Some Clean_mogadishu_sub_district,
              coded_field = ''mogadishu_sub_district_coded'',
              analysis_file_key = ''mogadishu_sub_district'',
              fold_strategy = Assert_label_ids_equal,
              include_in_theme_distribution = False\<rparr>,
             \<lparr>coding_mode = SINGLE,
              code_scheme = SOMALIA_DISTRICT,
              cleaner = Some Clean_district_if_no_mogadishu_sub_district,
              coded_field = ''district_coded'',
              analysis_file_key = ''district'',
              fold_strategy = Assert_label_ids_equal,
              include_in_theme_distribution = False\<rparr>,
             \<lparr>coding_mode = SINGLE,
              code_scheme = SOMALIA_REGION,
              cleaner = None,
              coded_field = ''region_coded'',
              analysis_file_key = ''region'',
              fold_strategy = Assert_label_ids_equal,
              include_in_theme_distribution = default_include_in_theme_distribution\<rparr>,
             \<lparr>coding_mode = SINGLE,
              code_scheme = SOMALIA_STATE,
              cleaner = None,
              coded_field = ''state_coded'',
              analysis_file_key = ''state'',
              fold_strategy = Assert_label_ids_equal,
              include_in_theme_distribution = default_include_in_theme_distribution\<rparr>,
             \<lparr>coding_mode = SINGLE,
              code_scheme = SOMALIA_ZONE,
              cleaner = None,
              coded_field = ''zone_coded'',
              analysis_file_key = ''zone'',
              fold_strategy = Assert_label_ids_equal,
              include_in_theme_distribution = False\<rparr>],
           code_imputation_function = Some Impute_somalia_location_codes,
           ws_code = code,
           raw_field_fold_strategy = Assert_equal\<rparr>)"

definition get_demog_coding_plans :: "'code ws_scheme \<Rightarrow> string \<Rightarrow> error + 'code CodingPlan list" where
  "get_demog_coding_plans ws pipeline_name =
     list_display [gender_plan ws, age_plan ws, recently_displaced_plan ws,
       household_language_plan ws, location_plan ws]"

definition get_follow_up_coding_plans :: "string \<Rightarrow> 'code CodingPlan list" where
  "get_follow_up_coding_plans pipeline_name = []"

definition get_engagement_coding_plans :: "string \<Rightarrow> 'code CodingPlan list" where
  "get_engagement_coding_plans pipeline_name = []"

definition get_ws_correct_dataset_scheme :: "'code ws_scheme \<Rightarrow> string \<Rightarrow> 'code ws_scheme" where
  "get_ws_correct_dataset_scheme ws pipeline_name = ws"

text \<open>The invariant of a plan: no two configurations share an output field or an analysis key.\<close>

definition unique_fields :: "'code CodingPlan \<Rightarrow> bool" where
  "unique_fields plan \<longleftrightarrow>
     distinct (map coded_field (coding_configurations plan)) \<and>
     distinct (map analysis_file_key (coding_configurations plan))"

section \<open>The contact exporter of \<^verbatim>\<open>export_initial_contacts.py\<close>\<close>

text \<open>
  The script body is modelled from the scan of the input files to the written file. What
  comes before (the command line, the pipeline configuration, the credentials of the
  identity table) and the reading of the files into rows are input and output outside the
  model: the inputs of the model are the rows of each file and the identity table.
\<close>

text \<open>
  \<^verbatim>\<open>SomaliaCodes.GALMUDUG\<close> and \<^verbatim>\<open>SomaliaCodes.SOUTH_WEST_STATE\<close> are string constants
  of the library; they are parameters of the set of target locations.
\<close>

definition TARGET_LOCATIONS :: "string \<Rightarrow> string \<Rightarrow> string set" where
  "TARGET_LOCATIONS galmudug south_west_state = {galmudug, south_west_state}"

text \<open>
  A row of \<^verbatim>\<open>csv.DictReader\<close> is a dictionary from column names to cells; every cell is a
  string (rows shorter than the header are outside the model). A Python \<^verbatim>\<open>set\<close> of strings
  is a list without repetitions, in the order of insertion: \<open>set_add\<close> is \<^verbatim>\<open>s.add(x)\<close>,
  \<^verbatim>\<open>x in s\<close> is \<open>x \<in> set s\<close>, \<^verbatim>\<open>len(s)\<close> is \<open>length s\<close>. The order in which Python
  iterates a set is not fixed by the language; the theorems speak of the elements only.
\<close>

type_synonym row = "string \<rightharpoonup> string"

definition getitem :: "row \<Rightarrow> string \<Rightarrow> error + string" where
  "getitem r k = (case r k of None \<Rightarrow> Inl (KeyError k) | Some v \<Rightarrow> Inr v)"

definition set_add :: "'a \<Rightarrow> 'a list \<Rightarrow> 'a list" where
  "set_add x s = (if x \<in> set s then s else s @ [x])"

text \<open>\<^verbatim>\<open>{location: 0 for location in TARGET_LOCATIONS}\<close> and \<^verbatim>\<open>counts[location] += 1\<close>.\<close>

definition zero_counts :: "string set \<Rightarrow> (string \<rightharpoonup> nat)" where
  "zero_counts T = (\<lambda>location. if location \<in> T then Some 0 else None)"

definition increment :: "(string \<rightharpoonup> nat) \<Rightarrow> string \<Rightarrow> error + (string \<rightharpoonup> nat)" where
  "increment counts location =
     (case counts location of
        None \<Rightarrow> Inl (KeyError location)
      | Some c \<Rightarrow> Inr (counts(location \<mapsto> c + 1)))"

record totals =
  uuids :: "string list"
  location_counts :: "string \<rightharpoonup> nat"

record file_totals =
  file_uuids :: "string list"
  file_location_counts :: "string \<rightharpoonup> nat"

text \<open>The two counting statements of the loop body, each reading \<^verbatim>\<open>row["uid"]\<close>.\<close>

definition count_in_file :: "row \<Rightarrow> string \<Rightarrow> file_totals \<Rightarrow> error + file_totals" where
  "count_in_file r location f =
     (case getitem r ''uid'' of
        Inl e \<Rightarrow> Inl e
      | Inr uid \<Rightarrow>
          if uid \<notin> set (file_uuids f) then
            (case increment (file_location_counts f) location of
               Inl e \<Rightarrow> Inl e
             | Inr counts \<Rightarrow> Inr \<lparr>file_uuids = set_add uid (file_uuids f), file_location_counts = counts\<rparr>)
          else Inr f)"

definition count_in_total :: "row \<Rightarrow> string \<Rightarrow> totals \<Rightarrow> error + totals" where
  "count_in_total r location t =
     (case getitem r ''uid'' of
        Inl e \<Rightarrow> Inl e
      | Inr uid \<Rightarrow>
          if uid \<notin> set (uuids t) then
            (case increment (location_counts t) location of
               Inl e \<Rightarrow> Inl e
             | Inr counts \<Rightarrow> Inr \<lparr>uuids = set_add uid (uuids t), location_counts = counts\<rparr>)
          else Inr t)"

text \<open>The body of \<^verbatim>\<open>for row in data\<close>; \<^verbatim>\<open>continue\<close> leaves both states as they are.\<close>

definition process_row :: "string set \<Rightarrow> row \<Rightarrow> totals \<times> file_totals \<Rightarrow> error + totals \<times> file_totals" where
  "process_row T r st =
     (case getitem r ''state'' of
        Inl e \<Rightarrow> Inl e
      | Inr location \<Rightarrow>
          if location = STOP then Inr st
          else if location \<in> T then
            if ''uid'' \<notin> dom r then Inr st
            else
              (case count_in_file r location (snd st) of
                 Inl e \<Rightarrow> Inl e
               | Inr f \<Rightarrow>
                  (case count_in_total r location (fst st) of
                     Inl e \<Rightarrow> Inl e
                   | Inr t \<Rightarrow> Inr (t, f)))
          else Inr st)"

fun scan_rows :: "string set \<Rightarrow> row list \<Rightarrow> totals \<times> file_totals \<Rightarrow> error + totals \<times> file_totals" where
  "scan_rows T [] st = Inr st"
| "scan_rows T (r # rest) st =
     (case process_row T r st of Inl e \<Rightarrow> Inl e | Inr st' \<Rightarrow> scan_rows T rest st')"

text \<open>
  One input file: its rows are scanned from fresh per-file sets; the two log lines after
  the scan report the per-file and the running figures.
\<close>

record file_report =
  found :: nat
  per_location :: "string \<rightharpoonup> nat"
  running_total :: nat
  running_per_location :: "string \<rightharpoonup> nat"

definition new_file :: "string set \<Rightarrow> file_totals" where
  "new_file T = \<lparr>file_uuids = [], file_location_counts = zero_counts T\<rparr>"

definition report_of :: "totals \<times> file_totals \<Rightarrow> file_report" where
  "report_of st =
     \<lparr>found = length (file_uuids (snd st)),
      per_location = file_location_counts (snd st),
      running_total = length (uuids (fst st)),
      running_per_location = location_counts (fst st)\<rparr>"

fun scan_files ::
  "string set \<Rightarrow> row list list \<Rightarrow> totals \<times> file_report list \<Rightarrow> error + totals \<times> file_report list" where
  "scan_files T [] acc = Inr acc"
| "scan_files T (data # rest) (t, reports) =
     (case scan_rows T data (t, new_file T) of
        Inl e \<Rightarrow> Inl e
      | Inr st \<Rightarrow> scan_files T rest (fst st, reports @ [report_of st]))"

definition no_totals :: "string set \<Rightarrow> totals" where
  "no_totals T = \<lparr>uuids = [], location_counts = zero_counts T\<rparr>"

text \<open>
  The identity table is a service outside the sources; it is a parameter, a table from
  uuids to the stored number. \<^verbatim>\<open>uuid_to_data_batch(uuids)\<close> is the table restricted to
  the uuids asked for.
\<close>

definition uuid_to_data_batch :: "(string \<rightharpoonup> string) \<Rightarrow> string list \<Rightarrow> (string \<rightharpoonup> string)" where
  "uuid_to_data_batch table us = table |` set us"

fun convert :: "(string \<rightharpoonup> string) \<Rightarrow> string list \<Rightarrow> string list \<times> string list \<Rightarrow> string list \<times> string list" where
  "convert lut [] acc = acc"
| "convert lut (uuid # rest) (phone_numbers, skipped_uuids) =
     (case lut uuid of
        Some number \<Rightarrow> convert lut rest (set_add (CHR ''+'' # number) phone_numbers, skipped_uuids)
      | None \<Rightarrow> convert lut rest (phone_numbers, set_add uuid skipped_uuids))"

text \<open>
  The written file, cell by cell: the header, then one record per phone number; the
  \<^verbatim>\<open>DictWriter\<close> fills the column \<^verbatim>\<open>Name\<close>, which no record gives, with the empty string.
\<close>

definition contacts_csv :: "string list \<Rightarrow> string list list" where
  "contacts_csv phone_numbers = [''URN:Tel'', ''Name''] # map (\<lambda>n. [n, []]) phone_numbers"

record export =
  reports :: "file_report list"
  all_uuids :: "string list"
  phone_numbers :: "string list"
  skipped_uuids :: "string list"
  csv_output :: "string list list"

definition export_initial_contacts ::
  "string set \<Rightarrow> (string \<rightharpoonup> string) \<Rightarrow> row list list \<Rightarrow> error + export" where
  "export_initial_contacts T table csv_inputs =
     (case scan_files T csv_inputs (no_totals T, []) of
        Inl e \<Rightarrow> Inl e
      | Inr (t, rs) \<Rightarrow>
          (let uuid_phone_number_lut = uuid_to_data_batch table (uuids t);
               converted = convert uuid_phone_number_lut (uuids t) ([], [])
           in Inr \<lparr>reports = rs,
                   all_uuids = uuids t,
                   phone_numbers = fst converted,
                   skipped_uuids = snd converted,
                   csv_output = contacts_csv (fst converted)\<rparr>))"

text \<open>
  The counting invariant: each dictionary of counters has the target locations as its
  keys, and its counters add up to the size of the set of uuids that it counts.
\<close>

definition counted :: "string set \<Rightarrow> string list \<Rightarrow> (string \<rightharpoonup> nat) \<Rightarrow> bool" where
  "counted T us counts \<longleftrightarrow>
     dom counts = T \<and> distinct us \<and> (\<Sum>location\<in>T. the (counts location)) = length us"

definition scan_inv :: "string set \<Rightarrow> totals \<times> file_totals \<Rightarrow> bool" where
  "scan_inv T st \<longleftrightarrow>
     counted T (uuids (fst st)) (location_counts (fst st)) \<and>
     counted T (file_uuids (snd st)) (file_location_counts (snd st))"

text \<open>A table of the shared scheme that has every match value of the catalogs, to run them.\<close>

definition example_ws :: "string ws_scheme" where
  "example_ws = map_of [
     (''ssf dcf s01e01'', ''code-dcf-1''), (''ssf dcf s01e02'', ''code-dcf-2''),
     (''ssf dcf s01e03'', ''code-dcf-3''), (''ssf dcf s01e04'', ''code-dcf-4''),
     (''ssf sld s01e01'', ''code-sld-1''), (''ssf sld s01e02'', ''code-sld-2''),
     (''ssf sld s01e03'', ''code-sld-3''), (''ssf sld s01e04'', ''code-sld-4''),
     (''ssf sld s01e05'', ''code-sld-5''), (''ssf sld s01 closeout'', ''code-sld-closeout''),
     (''gender'', ''code-gender''), (''age'', ''code-age''),
     (''recently displaced'', ''code-recently-displaced''),
     (''hh language'', ''code-hh-language''), (''location'', ''code-location'')]"

text \<open>
  The claim's words for what the counters count: a row counts a uid when it has that uid and
  its state is a target location other than the opt-out code; the first such row of a list
  gives the uid its location. \<open>counted_by_first_occurrence\<close> says that a set holds the uids
  that some row counts, and that the counter of every target location is the number of uids
  whose first occurrence has that location.
\<close>

definition counts_row :: "string set \<Rightarrow> row \<Rightarrow> string \<Rightarrow> bool" where
  "counts_row T r uid \<longleftrightarrow>
     r ''uid'' = Some uid \<and> (\<exists>location. r ''state'' = Some location \<and> location \<noteq> STOP \<and> location \<in> T)"

fun first_occurrence :: "string set \<Rightarrow> row list \<Rightarrow> string \<Rightarrow> string option" where
  "first_occurrence T [] uid = None"
| "first_occurrence T (r # rows) uid =
     (if counts_row T r uid then r ''state'' else first_occurrence T rows uid)"

definition counted_by_first_occurrence ::
  "string set \<Rightarrow> row list \<Rightarrow> string list \<Rightarrow> (string \<rightharpoonup> nat) \<Rightarrow> bool" where
  "counted_by_first_occurrence T rows us counts \<longleftrightarrow>
     (\<forall>uid. uid \<in> set us \<longleftrightarrow> first_occurrence T rows uid \<noteq> None) \<and>
     (\<forall>location\<in>T. counts location =
        Some (length (filter (\<lambda>uid. first_occurrence T rows uid = Some location) us)))"

text \<open>What a log line of a file says when the counters agree with the sets.\<close>

definition report_ok :: "string set \<Rightarrow> file_report \<Rightarrow> bool" where
  "report_ok T rep \<longleftrightarrow>
     (\<Sum>l\<in>T. the (per_location rep l)) = found rep \<and>
     (\<Sum>l\<in>T. the (running_per_location rep l)) = running_total rep"

text \<open>Sample inputs of the exporter: two target locations, a row with both columns, a table
  that knows one uuid.\<close>

definition example_targets :: "string set" where
  "example_targets = TARGET_LOCATIONS ''galmudug'' ''south west state''"

definition example_row :: "string \<Rightarrow> string \<Rightarrow> row" where
  "example_row uid state = [''uid'' \<mapsto> uid, ''state'' \<mapsto> state]"

definition example_table :: "string \<rightharpoonup> string" where
  "example_table = [''avf-phone-uuid-1'' \<mapsto> ''252610000001'']"

section \<open>Facts about the string builtins\<close>

lemma digit_char_in: "digit_char d \<in> set ''0123456789''"
  unfolding digit_char_def by (rule nth_mem) simp

lemma str_nat_digits: "set (str_nat n) \<subseteq> set ''0123456789''"
proof (induction n rule: str_nat.induct)
  case (1 n)
  show ?case
  proof (cases "n < 10")
    case True
    then show ?thesis using digit_char_in [of n] by (subst str_nat.simps) simp
  next
    case False
    then show ?thesis using 1 digit_char_in [of "n mod 10"] by (subst str_nat.simps) simp
  qed
qed

lemma str_nat_not_coded: "str_nat n \<noteq> NOT_CODED"
proof
  assume "str_nat n = NOT_CODED"
  then have "CHR ''N'' \<in> set (str_nat n)" by (simp add: NOT_CODED_def)
  with str_nat_digits [of n] show False by auto
qed

lemma str_int_not_coded: "0 \<le> a \<Longrightarrow> str_int a \<noteq> NOT_CODED"
  by (simp add: str_int_def str_nat_not_coded)

lemma replace_dcf:
  "py_replace ''rqa_dcf_s01e01'' ''rqa_'' [] = ''dcf_s01e01''"
  "py_replace ''rqa_dcf_s01e02'' ''rqa_'' [] = ''dcf_s01e02''"
  "py_replace ''rqa_dcf_s01e03'' ''rqa_'' [] = ''dcf_s01e03''"
  "py_replace ''rqa_dcf_s01e04'' ''rqa_'' [] = ''dcf_s01e04''"
  by (simp_all add: py_replace_def replace_scan.simps)

lemma replace_sld:
  "py_replace ''rqa_sld_s01e01'' ''rqa_'' [] = ''sld_s01e01''"
  "py_replace ''rqa_sld_s01e02'' ''rqa_'' [] = ''sld_s01e02''"
  "py_replace ''rqa_sld_s01e03'' ''rqa_'' [] = ''sld_s01e03''"
  "py_replace ''rqa_sld_s01e04'' ''rqa_'' [] = ''sld_s01e04''"
  "py_replace ''rqa_sld_s01e05'' ''rqa_'' [] = ''sld_s01e05''"
  "py_replace ''rqa_sld_s01_closeout'' ''rqa_'' [] = ''sld_s01_closeout''"
  by (simp_all add: py_replace_def replace_scan.simps)

lemma digits_clean_age_run:
  "digits_clean_age ''25'' = Age_int 25"
  "digits_clean_age ''150'' = Age_int 150"
  "digits_clean_age ''5'' = Age_int 5"
  "digits_clean_age ''abc'' = Age_str NOT_CODED"
  by (simp_all add: digits_clean_age_def digit_value_def)

lemma table_cleaners_run:
  "table_clean_mogadishu_sub_district ''hodan'' = ''hodan''"
  "table_clean_somalia_district ''hodan'' = ''hodan''"
  "table_clean_mogadishu_sub_district ''baidoa'' = NOT_CODED"
  "table_clean_somalia_district ''baidoa'' = ''baidoa''"
  "table_clean_mogadishu_sub_district ''abc'' = NOT_CODED"
  "table_clean_somalia_district ''abc'' = NOT_CODED"
  by (simp_all add: table_clean_mogadishu_sub_district_def table_clean_somalia_district_def)

section \<open>The cleaner composites\<close>

text \<open>
  Claim C3. \<open>clean_age_with_range_filter\<close> gives a value other than \<open>NOT_CODED\<close> exactly when
  the library's age cleaner yields an integer \<open>a\<close> with \<open>10 \<le> a < 100\<close>, and the value is then
  the decimal string of \<open>a\<close>; every other text maps to \<open>NOT_CODED\<close>. For a cleaner that reads
  the digits of a text as its number, "25" maps to "25", and "150", "5" and "abc" map to
  \<open>NOT_CODED\<close>.
\<close>

theorem age_range_filter:
  "(clean_age_with_range_filter clean_age text \<noteq> NOT_CODED \<longleftrightarrow>
      (\<exists>a. clean_age text = Age_int a \<and> 10 \<le> a \<and> a < 100)) \<and>
   (\<forall>a. clean_age text = Age_int a \<and> 10 \<le> a \<and> a < 100 \<longrightarrow>
      clean_age_with_range_filter clean_age text = str_int a) \<and>
   (clean_age ''25'' = Age_int 25 \<longrightarrow> clean_age_with_range_filter clean_age ''25'' = ''25'') \<and>
   (clean_age ''150'' = Age_int 150 \<longrightarrow> clean_age_with_range_filter clean_age ''150'' = NOT_CODED) \<and>
   (clean_age ''5'' = Age_int 5 \<longrightarrow> clean_age_with_range_filter clean_age ''5'' = NOT_CODED) \<and>
   ((\<forall>a. clean_age ''abc'' \<noteq> Age_int a) \<longrightarrow> clean_age_with_range_filter clean_age ''abc'' = NOT_CODED)"
proof (intro conjI allI impI)
  show "clean_age_with_range_filter clean_age text \<noteq> NOT_CODED \<longleftrightarrow>
      (\<exists>a. clean_age text = Age_int a \<and> 10 \<le> a \<and> a < 100)"
    by (cases "clean_age text") (simp_all add: clean_age_with_range_filter_def str_int_not_coded)
next
  fix a assume "clean_age text = Age_int a \<and> 10 \<le> a \<and> a < 100"
  then show "clean_age_with_range_filter clean_age text = str_int a"
    by (simp add: clean_age_with_range_filter_def)
next
  assume "clean_age ''25'' = Age_int 25"
  then show "clean_age_with_range_filter clean_age ''25'' = ''25''"
    by (simp add: clean_age_with_range_filter_def str_int_def str_nat.simps digit_char_def)
next
  assume "clean_age ''150'' = Age_int 150"
  then show "clean_age_with_range_filter clean_age ''150'' = NOT_CODED"
    by (simp add: clean_age_with_range_filter_def)
next
  assume "clean_age ''5'' = Age_int 5"
  then show "clean_age_with_range_filter clean_age ''5'' = NOT_CODED"
    by (simp add: clean_age_with_range_filter_def)
next
  assume "\<forall>a. clean_age ''abc'' \<noteq> Age_int a"
  then show "clean_age_with_range_filter clean_age ''abc'' = NOT_CODED"
    by (cases "clean_age ''abc''") (simp_all add: clean_age_with_range_filter_def)
qed

theorem age_range_filter_witness:
  "clean_age_with_range_filter digits_clean_age ''25'' = ''25'' \<and>
   clean_age_with_range_filter digits_clean_age ''150'' = NOT_CODED \<and>
   clean_age_with_range_filter digits_clean_age ''5'' = NOT_CODED \<and>
   clean_age_with_range_filter digits_clean_age ''abc'' = NOT_CODED"
  using age_range_filter [of digits_clean_age "''25''"]
  by (simp add: digits_clean_age_run str_int_def str_nat.simps digit_char_def)

text \<open>
  Claim C2, as the code has it. When the Mogadishu-sub-district cleaner matches the text the
  composite gives \<open>NOT_CODED\<close>, otherwise it gives the district cleaner's result; so the
  sub-district result and the composite's result are never both a code. They can both be
  \<open>NOT_CODED\<close>, when neither cleaner matches.
\<close>

theorem district_excludes_sub_district:
  "(clean_mogadishu_sub_district text \<noteq> NOT_CODED \<longrightarrow>
      clean_district_if_no_mogadishu_sub_district clean_mogadishu_sub_district clean_somalia_district text
        = NOT_CODED) \<and>
   (clean_mogadishu_sub_district text = NOT_CODED \<longrightarrow>
      clean_district_if_no_mogadishu_sub_district clean_mogadishu_sub_district clean_somalia_district text
        = clean_somalia_district text) \<and>
   \<not> (clean_mogadishu_sub_district text \<noteq> NOT_CODED \<and>
      clean_district_if_no_mogadishu_sub_district clean_mogadishu_sub_district clean_somalia_district text
        \<noteq> NOT_CODED)"
  by (simp add: clean_district_if_no_mogadishu_sub_district_def)

theorem district_excludes_sub_district_witness:
  "table_clean_mogadishu_sub_district ''hodan'' \<noteq> NOT_CODED \<and>
   clean_district_if_no_mogadishu_sub_district table_clean_mogadishu_sub_district
     table_clean_somalia_district ''hodan'' = NOT_CODED \<and>
   table_clean_mogadishu_sub_district ''baidoa'' = NOT_CODED \<and>
   clean_district_if_no_mogadishu_sub_district table_clean_mogadishu_sub_district
     table_clean_somalia_district ''baidoa'' = ''baidoa''"
  using district_excludes_sub_district [of table_clean_mogadishu_sub_district "''hodan''" table_clean_somalia_district]
    district_excludes_sub_district [of table_clean_mogadishu_sub_district "''baidoa''" table_clean_somalia_district]
  by (simp add: table_cleaners_run NOT_CODED_def)

text \<open>
  The text "abc" is matched by neither table cleaner: the sub-district result and the
  composite's result are both \<open>NOT_CODED\<close>, so it is not the case that exactly one of them is
  a code.
\<close>

theorem exactly_one_counterexample:
  "\<not> ((table_clean_mogadishu_sub_district ''abc'' \<noteq> NOT_CODED) \<noteq>
      (clean_district_if_no_mogadishu_sub_district table_clean_mogadishu_sub_district
         table_clean_somalia_district ''abc'' \<noteq> NOT_CODED))"
  by (simp add: clean_district_if_no_mogadishu_sub_district_def table_cleaners_run)

section \<open>The plan catalogs\<close>

lemma list_display_Inr: "list_display xs = Inr ys \<Longrightarrow> xs = map Inr ys"
proof (induction xs arbitrary: ys)
  case Nil
  then show ?case by simp
next
  case (Cons x xs)
  then show ?case by (cases x) (auto split: sum.splits)
qed

lemma make_rqa_unique: "make_rqa_coding_plan ws e s m f = Inr p \<Longrightarrow> unique_fields p"
  by (auto simp: make_rqa_coding_plan_def unique_fields_def split: sum.splits)

lemma example_ws_dcf:
  "{''ssf dcf s01e01'', ''ssf dcf s01e02'', ''ssf dcf s01e03'', ''ssf dcf s01e04''} \<subseteq> dom example_ws"
  by (simp add: example_ws_def dom_def)

lemma example_ws_sld:
  "{''ssf sld s01e01'', ''ssf sld s01e02'', ''ssf sld s01e03'', ''ssf sld s01e04'',
    ''ssf sld s01e05'', ''ssf sld s01 closeout''} \<subseteq> dom example_ws"
  by (simp add: example_ws_def dom_def)

lemma example_ws_demog:
  "{''gender'', ''age'', ''recently displaced'', ''hh language'', ''location''} \<subseteq> dom example_ws"
  by (simp add: example_ws_def dom_def)

lemma rqa_dcf:
  assumes "{''ssf dcf s01e01'', ''ssf dcf s01e02'', ''ssf dcf s01e03'', ''ssf dcf s01e04''} \<subseteq> dom ws"
  shows "\<exists>plans. get_rqa_coding_plans ws ''SSF-DCF'' = Inr plans \<and> length plans = 4 \<and>
      map (\<lambda>p. (map analysis_file_key (coding_configurations p), dataset_name p)) plans =
        [([''rqa_dcf_s01e01''], Some ''dcf_s01e01''), ([''rqa_dcf_s01e02''], Some ''dcf_s01e02''),
         ([''rqa_dcf_s01e03''], Some ''dcf_s01e03''), ([''rqa_dcf_s01e04''], Some ''dcf_s01e04'')] \<and>
      (\<forall>p\<in>set plans. \<exists>name. dataset_name p = Some name \<and>
         map analysis_file_key (coding_configurations p) = [''rqa_'' @ name])"
proof -
  from assms obtain c1 c2 c3 c4 where
    "ws ''ssf dcf s01e01'' = Some c1" "ws ''ssf dcf s01e02'' = Some c2"
    "ws ''ssf dcf s01e03'' = Some c3" "ws ''ssf dcf s01e04'' = Some c4"
    by (auto simp: dom_def)
  then show ?thesis
    by (simp add: get_rqa_coding_plans_def make_rqa_coding_plan_def get_code_with_match_value_def replace_dcf)
qed

lemma rqa_sld:
  assumes "{''ssf sld s01e01'', ''ssf sld s01e02'', ''ssf sld s01e03'', ''ssf sld s01e04'',
            ''ssf sld s01e05'', ''ssf sld s01 closeout''} \<subseteq> dom ws"
  shows "\<exists>plans. get_rqa_coding_plans ws ''SSF-SLD'' = Inr plans \<and> length plans = 6 \<and>
      map (\<lambda>p. (map analysis_file_key (coding_configurations p), dataset_name p)) plans =
        [([''rqa_sld_s01e01''], Some ''sld_s01e01''), ([''rqa_sld_s01e02''], Some ''sld_s01e02''),
         ([''rqa_sld_s01e03''], Some ''sld_s01e03''), ([''rqa_sld_s01e04''], Some ''sld_s01e04''),
         ([''rqa_sld_s01e05''], Some ''sld_s01e05''), ([''rqa_sld_s01_closeout''], Some ''sld_s01_closeout'')] \<and>
      (\<forall>p\<in>set plans. \<exists>name. dataset_name p = Some name \<and>
         map analysis_file_key (coding_configurations p) = [''rqa_'' @ name])"
proof -
  from assms obtain c1 c2 c3 c4 c5 c6 where
    "ws ''ssf sld s01e01'' = Some c1" "ws ''ssf sld s01e02'' = Some c2"
    "ws ''ssf sld s01e03'' = Some c3" "ws ''ssf sld s01e04'' = Some c4"
    "ws ''ssf sld s01e05'' = Some c5" "ws ''ssf sld s01 closeout'' = Some c6"
    by (auto simp: dom_def)
  then show ?thesis
    by (simp add: get_rqa_coding_plans_def make_rqa_coding_plan_def get_code_with_match_value_def replace_sld)
qed

lemma all_rqa_unique:
  assumes "list_display xs = Inr plans" and "p \<in> set plans"
    and "\<forall>x\<in>set xs. \<exists>e s m f. x = make_rqa_coding_plan ws e s m f"
  shows "unique_fields p"
proof -
  from assms(1) have "xs = map Inr plans" by (rule list_display_Inr)
  with assms(2) have "Inr p \<in> set xs" by auto
  with assms(3) obtain e s m f where "make_rqa_coding_plan ws e s m f = Inr p" by metis
  then show ?thesis by (rule make_rqa_unique)
qed

lemma rqa_unique:
  assumes a: "get_rqa_coding_plans ws name = Inr plans" and p: "p \<in> set plans"
  shows "unique_fields p"
proof -
  from a obtain xs where xs: "list_display xs = Inr plans"
    and el: "\<forall>x\<in>set xs. \<exists>e s m f. x = make_rqa_coding_plan ws e s m f"
  proof (cases "name = ''SSF-DCF''")
    case True
    with a that show ?thesis
      unfolding get_rqa_coding_plans_def by (simp only: if_True) fastforce
  next
    case False
    with a have "name = ''SSF-SLD''" by (auto simp: get_rqa_coding_plans_def split: if_splits)
    with a that show ?thesis
      unfolding get_rqa_coding_plans_def by (simp only: if_True if_False simp_thms) fastforce
  qed
  from xs p el show ?thesis by (rule all_rqa_unique)
qed

lemma demog_plans_unique:
  "gender_plan ws = Inr p \<Longrightarrow> unique_fields p"
  "age_plan ws = Inr p \<Longrightarrow> unique_fields p"
  "recently_displaced_plan ws = Inr p \<Longrightarrow> unique_fields p"
  "household_language_plan ws = Inr p \<Longrightarrow> unique_fields p"
  "location_plan ws = Inr p \<Longrightarrow> unique_fields p"
  by (auto simp: gender_plan_def age_plan_def recently_displaced_plan_def household_language_plan_def
      location_plan_def unique_fields_def split: sum.splits)

lemma demog_unique: "get_demog_coding_plans ws name = Inr plans \<Longrightarrow> p \<in> set plans \<Longrightarrow> unique_fields p"
proof -
  assume a: "get_demog_coding_plans ws name = Inr plans" and p: "p \<in> set plans"
  from a have "[gender_plan ws, age_plan ws, recently_displaced_plan ws,
       household_language_plan ws, location_plan ws] = map Inr plans"
    unfolding get_demog_coding_plans_def by (rule list_display_Inr)
  with p have "Inr p \<in> set [gender_plan ws, age_plan ws, recently_displaced_plan ws,
       household_language_plan ws, location_plan ws]" by auto
  then show ?thesis using demog_plans_unique [of ws p] by auto
qed

lemma demog_returns:
  assumes "{''gender'', ''age'', ''recently displaced'', ''hh language'', ''location''} \<subseteq> dom ws"
  shows "\<exists>plans. get_demog_coding_plans ws name = Inr plans \<and> length plans = 5 \<and>
     map raw_field plans = [''gender_raw'', ''age_raw'', ''recently_displaced_raw'',
        ''household_language_raw'', ''location_raw'']"
proof -
  from assms obtain c1 c2 c3 c4 c5 where
    "ws ''gender'' = Some c1" "ws ''age'' = Some c2" "ws ''recently displaced'' = Some c3"
    "ws ''hh language'' = Some c4" "ws ''location'' = Some c5"
    by (auto simp: dom_def)
  then show ?thesis
    by (simp add: get_demog_coding_plans_def gender_plan_def age_plan_def recently_displaced_plan_def
        household_language_plan_def location_plan_def get_code_with_match_value_def)
qed

text \<open>
  Claim C1. When the shared scheme has the match values of the episodes, the catalog of
  "SSF-DCF" returns four plans and the catalog of "SSF-SLD" returns six, one per declared
  episode and in the order of declaration; the \<open>dataset_name\<close> of each plan is its episode
  identifier (which the plan keeps as the analysis key of its one configuration) without the
  prefix "rqa_".
\<close>

theorem rqa_one_plan_per_episode:
  "({''ssf dcf s01e01'', ''ssf dcf s01e02'', ''ssf dcf s01e03'', ''ssf dcf s01e04''} \<subseteq> dom ws \<longrightarrow>
      (\<exists>plans. get_rqa_coding_plans ws ''SSF-DCF'' = Inr plans \<and> length plans = 4 \<and>
         map (\<lambda>p. (map analysis_file_key (coding_configurations p), dataset_name p)) plans =
           [([''rqa_dcf_s01e01''], Some ''dcf_s01e01''), ([''rqa_dcf_s01e02''], Some ''dcf_s01e02''),
            ([''rqa_dcf_s01e03''], Some ''dcf_s01e03''), ([''rqa_dcf_s01e04''], Some ''dcf_s01e04'')] \<and>
         (\<forall>p\<in>set plans. \<exists>name. dataset_name p = Some name \<and>
            map analysis_file_key (coding_configurations p) = [''rqa_'' @ name]))) \<and>
   ({''ssf sld s01e01'', ''ssf sld s01e02'', ''ssf sld s01e03'', ''ssf sld s01e04'',
     ''ssf sld s01e05'', ''ssf sld s01 closeout''} \<subseteq> dom ws \<longrightarrow>
      (\<exists>plans. get_rqa_coding_plans ws ''SSF-SLD'' = Inr plans \<and> length plans = 6 \<and>
         map (\<lambda>p. (map analysis_file_key (coding_configurations p), dataset_name p)) plans =
           [([''rqa_sld_s01e01''], Some ''sld_s01e01''), ([''rqa_sld_s01e02''], Some ''sld_s01e02''),
            ([''rqa_sld_s01e03''], Some ''sld_s01e03''), ([''rqa_sld_s01e04''], Some ''sld_s01e04''),
            ([''rqa_sld_s01e05''], Some ''sld_s01e05''), ([''rqa_sld_s01_closeout''], Some ''sld_s01_closeout'')] \<and>
         (\<forall>p\<in>set plans. \<exists>name. dataset_name p = Some name \<and>
            map analysis_file_key (coding_configurations p) = [''rqa_'' @ name])))"
  by (intro conjI impI) (erule rqa_dcf, erule rqa_sld)

theorem rqa_one_plan_per_episode_witness:
  "(\<exists>plans. get_rqa_coding_plans example_ws ''SSF-DCF'' = Inr plans \<and> length plans = 4) \<and>
   (\<exists>plans. get_rqa_coding_plans example_ws ''SSF-SLD'' = Inr plans \<and> length plans = 6)"
proof (rule conjI)
  from rqa_one_plan_per_episode [of example_ws, THEN conjunct1] example_ws_dcf
  have "\<exists>plans. get_rqa_coding_plans example_ws ''SSF-DCF'' = Inr plans \<and> length plans = 4 \<and>
         map (\<lambda>p. (map analysis_file_key (coding_configurations p), dataset_name p)) plans =
           [([''rqa_dcf_s01e01''], Some ''dcf_s01e01''), ([''rqa_dcf_s01e02''], Some ''dcf_s01e02''),
            ([''rqa_dcf_s01e03''], Some ''dcf_s01e03''), ([''rqa_dcf_s01e04''], Some ''dcf_s01e04'')] \<and>
         (\<forall>p\<in>set plans. \<exists>name. dataset_name p = Some name \<and>
            map analysis_file_key (coding_configurations p) = [''rqa_'' @ name])"
    by (rule mp)
  then show "\<exists>plans. get_rqa_coding_plans example_ws ''SSF-DCF'' = Inr plans \<and> length plans = 4"
    by (elim exE conjE, intro exI conjI)
next
  from rqa_one_plan_per_episode [of example_ws, THEN conjunct2] example_ws_sld
  have "\<exists>plans. get_rqa_coding_plans example_ws ''SSF-SLD'' = Inr plans \<and> length plans = 6 \<and>
         map (\<lambda>p. (map analysis_file_key (coding_configurations p), dataset_name p)) plans =
           [([''rqa_sld_s01e01''], Some ''sld_s01e01''), ([''rqa_sld_s01e02''], Some ''sld_s01e02''),
            ([''rqa_sld_s01e03''], Some ''sld_s01e03''), ([''rqa_sld_s01e04''], Some ''sld_s01e04''),
            ([''rqa_sld_s01e05''], Some ''sld_s01e05''), ([''rqa_sld_s01_closeout''], Some ''sld_s01_closeout'')] \<and>
         (\<forall>p\<in>set plans. \<exists>name. dataset_name p = Some name \<and>
            map analysis_file_key (coding_configurations p) = [''rqa_'' @ name])"
    by (rule mp)
  then show "\<exists>plans. get_rqa_coding_plans example_ws ''SSF-SLD'' = Inr plans \<and> length plans = 6"
    by (elim exE conjE, intro exI conjI)
qed

text \<open>
  Claim C4. In every plan that a catalog function returns, the \<open>coded_field\<close> values of the
  configurations are pairwise distinct, and so are the \<open>analysis_file_key\<close> values. The
  plans are built by the call and returned as built, so the property holds from their
  construction.
\<close>

theorem catalog_plans_unique_fields:
  "(get_rqa_coding_plans ws pipeline_name = Inr rqa_plans \<longrightarrow> (\<forall>p\<in>set rqa_plans. unique_fields p)) \<and>
   (get_demog_coding_plans ws pipeline_name = Inr demog_plans \<longrightarrow> (\<forall>p\<in>set demog_plans. unique_fields p)) \<and>
   (\<forall>p\<in>set (get_follow_up_coding_plans pipeline_name :: 'code CodingPlan list). unique_fields p) \<and>
   (\<forall>p\<in>set (get_engagement_coding_plans pipeline_name :: 'code CodingPlan list). unique_fields p)"
proof (intro conjI impI ballI)
  fix p assume "get_rqa_coding_plans ws pipeline_name = Inr rqa_plans" "p \<in> set rqa_plans"
  then show "unique_fields p" by (rule rqa_unique)
next
  fix p assume "get_demog_coding_plans ws pipeline_name = Inr demog_plans" "p \<in> set demog_plans"
  then show "unique_fields p" by (rule demog_unique)
next
  fix p :: "'code CodingPlan" assume "p \<in> set (get_follow_up_coding_plans pipeline_name)"
  then show "unique_fields p" by (simp add: get_follow_up_coding_plans_def)
next
  fix p :: "'code CodingPlan" assume "p \<in> set (get_engagement_coding_plans pipeline_name)"
  then show "unique_fields p" by (simp add: get_engagement_coding_plans_def)
qed

theorem catalog_plans_unique_fields_witness:
  "(\<exists>plans. get_rqa_coding_plans example_ws ''SSF-DCF'' = Inr plans \<and> length plans = 4 \<and>
      (\<forall>p\<in>set plans. unique_fields p)) \<and>
   (\<exists>plans. get_demog_coding_plans example_ws ''SSF-DCF'' = Inr plans \<and> length plans = 5 \<and>
      (\<forall>p\<in>set plans. unique_fields p))"
proof (rule conjI)
  from rqa_dcf [OF example_ws_dcf] obtain plans where
    r: "get_rqa_coding_plans example_ws ''SSF-DCF'' = Inr plans" and l: "length plans = 4"
    by (elim exE conjE)
  from catalog_plans_unique_fields [of example_ws "''SSF-DCF''" plans, THEN conjunct1] r
  have "\<forall>p\<in>set plans. unique_fields p" by (rule mp)
  with r l show "\<exists>plans. get_rqa_coding_plans example_ws ''SSF-DCF'' = Inr plans \<and> length plans = 4 \<and>
      (\<forall>p\<in>set plans. unique_fields p)"
    by (intro exI conjI)
next
  from demog_returns [OF example_ws_demog, of "''SSF-DCF''"] obtain plans where
    r: "get_demog_coding_plans example_ws ''SSF-DCF'' = Inr plans" and l: "length plans = 5"
    by (elim exE conjE)
  from catalog_plans_unique_fields [of example_ws "''SSF-DCF''" _ plans, THEN conjunct2, THEN conjunct1] r
  have "\<forall>p\<in>set plans. unique_fields p" by (rule mp)
  with r l show "\<exists>plans. get_demog_coding_plans example_ws ''SSF-DCF'' = Inr plans \<and> length plans = 5 \<and>
      (\<forall>p\<in>set plans. unique_fields p)"
    by (intro exI conjI)
qed

text \<open>
  Claim C5. For every pipeline name other than "SSF-DCF" and "SSF-SLD",
  \<open>get_rqa_coding_plans\<close> ends with the assertion failure, whatever the shared scheme holds:
  no plan is built (no lookup in the scheme is reached) and no value is returned.
\<close>

theorem rqa_unknown_variant:
  "pipeline_name \<notin> {''SSF-DCF'', ''SSF-SLD''} \<Longrightarrow> get_rqa_coding_plans ws pipeline_name = Inl AssertionError"
  by (simp add: get_rqa_coding_plans_def)

theorem rqa_unknown_variant_witness:
  "''SSF-XYZ'' \<notin> {''SSF-DCF'', ''SSF-SLD''} \<and>
   get_rqa_coding_plans (Map.empty :: nat ws_scheme) ''SSF-XYZ'' = Inl AssertionError"
  using rqa_unknown_variant [of "''SSF-XYZ''" "Map.empty :: nat ws_scheme"] by simp

text \<open>
  Claim C6. The result of \<open>get_demog_coding_plans\<close> does not depend on the pipeline name; when
  the shared scheme has the five match values it is a list of exactly five plans: gender,
  age, recently displaced, household language, location, in this order. The follow-up and
  the engagement catalogs return the empty list for every pipeline name.
\<close>

theorem demog_plans_fixed:
  "get_demog_coding_plans ws pipeline_name = get_demog_coding_plans ws other_name \<and>
   ({''gender'', ''age'', ''recently displaced'', ''hh language'', ''location''} \<subseteq> dom ws \<longrightarrow>
      (\<exists>plans. get_demog_coding_plans ws pipeline_name = Inr plans \<and> length plans = 5 \<and>
         map raw_field plans = [''gender_raw'', ''age_raw'', ''recently_displaced_raw'',
           ''household_language_raw'', ''location_raw''])) \<and>
   (get_follow_up_coding_plans pipeline_name :: 'code CodingPlan list) = [] \<and>
   (get_engagement_coding_plans pipeline_name :: 'code CodingPlan list) = []"
proof (intro conjI impI)
  show "get_demog_coding_plans ws pipeline_name = get_demog_coding_plans ws other_name"
    by (simp add: get_demog_coding_plans_def)
  show "(get_follow_up_coding_plans pipeline_name :: 'code CodingPlan list) = []"
    by (simp add: get_follow_up_coding_plans_def)
  show "(get_engagement_coding_plans pipeline_name :: 'code CodingPlan list) = []"
    by (simp add: get_engagement_coding_plans_def)
qed (erule demog_returns)

theorem demog_plans_fixed_witness:
  "\<exists>plans. get_demog_coding_plans example_ws ''SSF-SLD'' = Inr plans \<and> length plans = 5 \<and>
     map raw_field plans = [''gender_raw'', ''age_raw'', ''recently_displaced_raw'',
       ''household_language_raw'', ''location_raw'']"
  using demog_plans_fixed [of example_ws "''SSF-SLD''", THEN conjunct2, THEN conjunct1] example_ws_demog
  by (rule mp)

section \<open>The scan of the exporter\<close>

lemma set_set_add: "set (set_add x s) = insert x (set s)"
  by (auto simp: set_add_def)

lemma distinct_set_add: "distinct s \<Longrightarrow> distinct (set_add x s)"
  by (simp add: set_add_def)

lemma length_set_add_new: "x \<notin> set s \<Longrightarrow> length (set_add x s) = Suc (length s)"
  by (simp add: set_add_def)

lemma finite_TARGET_LOCATIONS: "finite (TARGET_LOCATIONS g s)"
  by (simp add: TARGET_LOCATIONS_def)

lemma counted_zero: "finite T \<Longrightarrow> counted T [] (zero_counts T)"
  by (auto simp: counted_def zero_counts_def dom_def)

lemma sum_after_increment:
  assumes "finite T" and "location \<in> T" and "counts location = Some c"
  shows "(\<Sum>l\<in>T. the ((counts(location \<mapsto> c + 1)) l)) = Suc (\<Sum>l\<in>T. the (counts l))"
proof -
  have "(\<Sum>l\<in>T. the ((counts(location \<mapsto> c + 1)) l)) =
        the ((counts(location \<mapsto> c + 1)) location) + (\<Sum>l\<in>T - {location}. the ((counts(location \<mapsto> c + 1)) l))"
    using assms(1,2) by (rule sum.remove)
  also have "(\<Sum>l\<in>T - {location}. the ((counts(location \<mapsto> c + 1)) l)) = (\<Sum>l\<in>T - {location}. the (counts l))"
    by (rule sum.cong) auto
  also have "the ((counts(location \<mapsto> c + 1)) location) = Suc (the (counts location))"
    using assms(3) by simp
  finally show ?thesis
    using sum.remove [OF assms(1,2), of "\<lambda>l. the (counts l)"] by simp
qed

lemma increment_counted:
  assumes "finite T" and "counted T us counts" and "location \<in> T" and "uid \<notin> set us"
  shows "\<exists>counts'. increment counts location = Inr counts' \<and> counted T (set_add uid us) counts'"
proof -
  from assms(2,3) obtain c where c: "counts location = Some c"
    by (auto simp: counted_def)
  have "counted T (set_add uid us) (counts(location \<mapsto> c + 1))"
    unfolding counted_def
  proof (intro conjI)
    show "dom (counts(location \<mapsto> c + 1)) = T"
      using assms(2,3) by (auto simp: counted_def)
    show "distinct (set_add uid us)"
      using assms(2) by (simp add: counted_def distinct_set_add)
    show "(\<Sum>l\<in>T. the ((counts(location \<mapsto> c + 1)) l)) = length (set_add uid us)"
      using sum_after_increment [of T location counts c] assms c
      by (simp add: counted_def length_set_add_new)
  qed
  with c show ?thesis by (simp add: increment_def)
qed

lemma count_in_file_counted:
  assumes "finite T" and "counted T (file_uuids f) (file_location_counts f)" and "location \<in> T"
    and "r ''uid'' = Some uid"
  shows "\<exists>f'. count_in_file r location f = Inr f' \<and> counted T (file_uuids f') (file_location_counts f')"
proof (cases "uid \<in> set (file_uuids f)")
  case True
  with assms show ?thesis by (simp add: count_in_file_def getitem_def)
next
  case False
  from increment_counted [OF assms(1,2,3) False] obtain counts' where
    "increment (file_location_counts f) location = Inr counts'"
    "counted T (set_add uid (file_uuids f)) counts'" by auto
  with False assms(4) show ?thesis by (simp add: count_in_file_def getitem_def)
qed

lemma count_in_total_counted:
  assumes "finite T" and "counted T (uuids t) (location_counts t)" and "location \<in> T"
    and "r ''uid'' = Some uid"
  shows "\<exists>t'. count_in_total r location t = Inr t' \<and> counted T (uuids t') (location_counts t')"
proof (cases "uid \<in> set (uuids t)")
  case True
  with assms show ?thesis by (simp add: count_in_total_def getitem_def)
next
  case False
  from increment_counted [OF assms(1,2,3) False] obtain counts' where
    "increment (location_counts t) location = Inr counts'"
    "counted T (set_add uid (uuids t)) counts'" by auto
  with False assms(4) show ?thesis by (simp add: count_in_total_def getitem_def)
qed

text \<open>Under the invariant a row fails only for a missing state column, and the invariant is kept.\<close>

lemma process_row_inv:
  assumes "finite T" and "scan_inv T st"
  shows "(r ''state'' = None \<and> process_row T r st = Inl (KeyError ''state'')) \<or>
         (r ''state'' \<noteq> None \<and> (\<exists>st'. process_row T r st = Inr st' \<and> scan_inv T st'))"
proof (cases "r ''state''")
  case None
  then show ?thesis by (simp add: process_row_def getitem_def)
next
  case (Some location)
  show ?thesis
  proof (cases "location \<noteq> STOP \<and> location \<in> T \<and> ''uid'' \<in> dom r")
    case False
    with Some have "process_row T r st = Inr st"
      by (auto simp: process_row_def getitem_def domIff)
    with Some assms(2) show ?thesis by simp
  next
    case True
    then obtain uid where uid: "r ''uid'' = Some uid" by auto
    from assms(2) have c: "counted T (uuids (fst st)) (location_counts (fst st))"
      "counted T (file_uuids (snd st)) (file_location_counts (snd st))"
      by (simp_all add: scan_inv_def)
    from True have l: "location \<in> T" by simp
    from count_in_file_counted [of T "snd st" location r uid] assms(1) c(2) l uid obtain f' where
      f: "count_in_file r location (snd st) = Inr f'" "counted T (file_uuids f') (file_location_counts f')"
      by auto
    from count_in_total_counted [of T "fst st" location r uid] assms(1) c(1) l uid obtain t' where
      t: "count_in_total r location (fst st) = Inr t'" "counted T (uuids t') (location_counts t')"
      by auto
    from Some True f t show ?thesis
      by (simp add: process_row_def getitem_def scan_inv_def)
  qed
qed

lemma process_row_keeps_inv:
  "finite T \<Longrightarrow> scan_inv T st \<Longrightarrow> process_row T r st = Inr st' \<Longrightarrow> scan_inv T st'"
  using process_row_inv [of T st r] by auto

lemma scan_rows_keeps_inv:
  "finite T \<Longrightarrow> scan_inv T st \<Longrightarrow> scan_rows T rows st = Inr st' \<Longrightarrow> scan_inv T st'"
proof (induction rows arbitrary: st)
  case Nil
  then show ?case by simp
next
  case (Cons r rows)
  from Cons.prems(3) obtain st1 where s: "process_row T r st = Inr st1" "scan_rows T rows st1 = Inr st'"
    by (auto split: sum.splits)
  from Cons.prems(1,2) s(1) have "scan_inv T st1" by (rule process_row_keeps_inv)
  with Cons.IH Cons.prems(1) s(2) show ?case by blast
qed

lemma report_of_inv: "scan_inv T st \<Longrightarrow> report_ok T (report_of st)"
  by (simp add: scan_inv_def counted_def report_ok_def report_of_def)

lemma scan_files_keeps_inv:
  assumes "finite T"
  shows "counted T (uuids t) (location_counts t) \<Longrightarrow> \<forall>rep\<in>set rs. report_ok T rep \<Longrightarrow>
     scan_files T files (t, rs) = Inr (t', rs') \<Longrightarrow>
     counted T (uuids t') (location_counts t') \<and> (\<forall>rep\<in>set rs'. report_ok T rep)"
proof (induction files arbitrary: t rs)
  case Nil
  then show ?case by simp
next
  case (Cons data files)
  from Cons.prems(3) obtain st where
    s: "scan_rows T data (t, new_file T) = Inr st"
       "scan_files T files (fst st, rs @ [report_of st]) = Inr (t', rs')"
    by (auto split: sum.splits)
  from Cons.prems(1) assms have "scan_inv T (t, new_file T)"
    by (simp add: scan_inv_def new_file_def counted_zero)
  with assms have i: "scan_inv T st" using s(1) by (rule scan_rows_keeps_inv)
  then have "counted T (uuids (fst st)) (location_counts (fst st))" by (simp add: scan_inv_def)
  moreover from i Cons.prems(2) have "\<forall>rep\<in>set (rs @ [report_of st]). report_ok T rep"
    by (auto dest: report_of_inv)
  ultimately show ?case using s(2) by (rule Cons.IH)
qed

lemma process_row_error:
  assumes "T \<subseteq> dom (location_counts (fst st))" and "T \<subseteq> dom (file_location_counts (snd st))"
    and "process_row T r st = Inl e"
  shows "e = KeyError ''state'' \<and> ''state'' \<notin> dom r"
proof (cases "r ''state''")
  case None
  with assms(3) show ?thesis by (simp add: process_row_def getitem_def domIff)
next
  case (Some location)
  show ?thesis
  proof (cases "location \<noteq> STOP \<and> location \<in> T \<and> ''uid'' \<in> dom r")
    case False
    with Some have "process_row T r st = Inr st"
      by (auto simp: process_row_def getitem_def domIff)
    with assms(3) show ?thesis by simp
  next
    case True
    then obtain uid where uid: "r ''uid'' = Some uid" by auto
    from True assms(1,2) have "location \<in> dom (location_counts (fst st))"
      "location \<in> dom (file_location_counts (snd st))" by blast+
    then obtain c1 c2 where
      c: "location_counts (fst st) location = Some c1" "file_location_counts (snd st) location = Some c2"
      by blast
    from uid c have "\<exists>f. count_in_file r location (snd st) = Inr f"
      "\<exists>t. count_in_total r location (fst st) = Inr t"
      by (simp_all add: count_in_file_def count_in_total_def getitem_def increment_def)
    with Some True have "\<exists>st'. process_row T r st = Inr st'"
      by (auto simp: process_row_def getitem_def)
    with assms(3) show ?thesis by simp
  qed
qed

lemma example_first_row:
  "process_row example_targets (example_row ''avf-phone-uuid-1'' ''galmudug'')
     (no_totals example_targets, new_file example_targets) =
   Inr (\<lparr>uuids = [''avf-phone-uuid-1''], location_counts = (zero_counts example_targets)(''galmudug'' \<mapsto> 1)\<rparr>,
        \<lparr>file_uuids = [''avf-phone-uuid-1''],
         file_location_counts = (zero_counts example_targets)(''galmudug'' \<mapsto> 1)\<rparr>)"
  by (simp add: process_row_def getitem_def example_row_def example_targets_def TARGET_LOCATIONS_def
      STOP_def count_in_file_def count_in_total_def new_file_def no_totals_def increment_def
      zero_counts_def set_add_def)

lemma example_no_state:
  "process_row example_targets [''uid'' \<mapsto> ''avf-phone-uuid-1'']
     (no_totals example_targets, new_file example_targets) = Inl (KeyError ''state'')"
  by (simp add: process_row_def getitem_def)

lemma process_row_new_uid:
  assumes "r ''uid'' = Some uid" and "r ''state'' = Some location" and "location \<in> T"
    and "location \<noteq> STOP" and "uid \<notin> set (uuids t)" and "uid \<notin> set (file_uuids f)"
    and "location_counts t location = Some c" and "file_location_counts f location = Some c'"
  shows "process_row T r (t, f) =
     Inr (\<lparr>uuids = uuids t @ [uid], location_counts = (location_counts t)(location \<mapsto> c + 1)\<rparr>,
          \<lparr>file_uuids = file_uuids f @ [uid],
           file_location_counts = (file_location_counts f)(location \<mapsto> c' + 1)\<rparr>)"
  using assms
  by (simp add: process_row_def getitem_def count_in_file_def count_in_total_def increment_def
      set_add_def domIff)

lemma process_row_seen_uid:
  assumes "r ''uid'' = Some uid" and "r ''state'' = Some location" and "location \<in> T"
    and "location \<noteq> STOP" and "uid \<in> set (uuids t)" and "uid \<notin> set (file_uuids f)"
    and "file_location_counts f location = Some c'"
  shows "process_row T r (t, f) =
     Inr (t, \<lparr>file_uuids = file_uuids f @ [uid],
              file_location_counts = (file_location_counts f)(location \<mapsto> c' + 1)\<rparr>)"
  using assms
  by (simp add: process_row_def getitem_def count_in_file_def count_in_total_def increment_def
      set_add_def domIff)

lemma example_scan:
  "\<exists>t rs. scan_files example_targets
      [[example_row ''avf-phone-uuid-1'' ''galmudug'', example_row ''avf-phone-uuid-2'' ''south west state'']]
      (no_totals example_targets, []) = Inr (t, rs) \<and>
     uuids t = [''avf-phone-uuid-1'', ''avf-phone-uuid-2''] \<and> length rs = 1"
  by (simp add: process_row_def getitem_def example_row_def example_targets_def TARGET_LOCATIONS_def
      STOP_def count_in_file_def count_in_total_def new_file_def no_totals_def increment_def
      zero_counts_def set_add_def)

lemma first_occurrence_append:
  "first_occurrence T (h @ [r]) uid =
     (case first_occurrence T h uid of
        Some l \<Rightarrow> Some l
      | None \<Rightarrow> if counts_row T r uid then r ''state'' else None)"
proof (induction h)
  case Nil
  then show ?case by simp
next
  case (Cons a h)
  then show ?case by (auto simp: counts_row_def split: option.splits)
qed

lemma first_occurrence_zero: "counted_by_first_occurrence T [] [] (zero_counts T)"
  by (simp add: counted_by_first_occurrence_def zero_counts_def)

lemma first_occurrence_same:
  assumes "counted_by_first_occurrence T h us counts"
    and "\<forall>uid. counts_row T r uid \<longrightarrow> uid \<in> set us"
  shows "counted_by_first_occurrence T (h @ [r]) us counts"
proof -
  have keep: "first_occurrence T (h @ [r]) u = first_occurrence T h u" if "u \<in> set us" for u
    using that assms(1) by (auto simp: first_occurrence_append counted_by_first_occurrence_def split: option.splits)
  have none: "first_occurrence T (h @ [r]) u = None" if "u \<notin> set us" for u
  proof -
    from that assms(1) have "first_occurrence T h u = None"
      by (simp add: counted_by_first_occurrence_def)
    moreover from that assms(2) have "\<not> counts_row T r u" by blast
    ultimately show ?thesis by (simp add: first_occurrence_append)
  qed
  have "filter (\<lambda>uid. first_occurrence T (h @ [r]) uid = Some l) us =
        filter (\<lambda>uid. first_occurrence T h uid = Some l) us" for l
    by (rule filter_cong) (simp_all add: keep)
  moreover have "uid \<in> set us \<longleftrightarrow> first_occurrence T (h @ [r]) uid \<noteq> None" for uid
    using keep [of uid] none [of uid] assms(1) by (cases "uid \<in> set us") (simp_all add: counted_by_first_occurrence_def)
  ultimately show ?thesis
    using assms(1) by (simp add: counted_by_first_occurrence_def)
qed

lemma first_occurrence_new:
  assumes "counted_by_first_occurrence T h us counts"
    and "r ''uid'' = Some uid" and "r ''state'' = Some location"
    and "location \<noteq> STOP" and "location \<in> T" and "uid \<notin> set us"
    and "counts location = Some c"
  shows "counted_by_first_occurrence T (h @ [r]) (set_add uid us) (counts(location \<mapsto> c + 1))"
proof -
  have keep: "first_occurrence T (h @ [r]) u = first_occurrence T h u" if "u \<in> set us" for u
    using that assms(1) by (auto simp: first_occurrence_append counted_by_first_occurrence_def split: option.splits)
  have new: "first_occurrence T (h @ [r]) uid = Some location"
  proof -
    from assms(1,6) have "first_occurrence T h uid = None"
      by (simp add: counted_by_first_occurrence_def)
    moreover from assms(2-5) have "counts_row T r uid" by (simp add: counts_row_def)
    ultimately show ?thesis using assms(3) by (simp add: first_occurrence_append)
  qed
  have none: "first_occurrence T (h @ [r]) u = None" if "u \<notin> set us" "u \<noteq> uid" for u
  proof -
    from that assms(1) have "first_occurrence T h u = None"
      by (simp add: counted_by_first_occurrence_def)
    moreover from that assms(2) have "\<not> counts_row T r u" by (simp add: counts_row_def)
    ultimately show ?thesis by (simp add: first_occurrence_append)
  qed
  have f: "filter (\<lambda>u. first_occurrence T (h @ [r]) u = Some l) us =
        filter (\<lambda>u. first_occurrence T h u = Some l) us" for l
    by (rule filter_cong) (simp_all add: keep)
  have mem: "u \<in> set (set_add uid us) \<longleftrightarrow> first_occurrence T (h @ [r]) u \<noteq> None" for u
  proof (cases "u = uid")
    case True
    then show ?thesis by (simp add: new set_add_def)
  next
    case False
    then show ?thesis
      using keep [of u] none [of u] assms(1)
      by (cases "u \<in> set us") (simp_all add: counted_by_first_occurrence_def set_add_def)
  qed
  have cnt: "(counts(location \<mapsto> c + 1)) l =
      Some (length (filter (\<lambda>u. first_occurrence T (h @ [r]) u = Some l) (set_add uid us)))"
    if "l \<in> T" for l
  proof -
    from that assms(1) have old: "counts l = Some (length (filter (\<lambda>u. first_occurrence T h u = Some l) us))"
      by (simp add: counted_by_first_occurrence_def)
    show ?thesis
    proof (cases "l = location")
      case True
      with old assms(6,7) show ?thesis by (simp add: set_add_def f new)
    next
      case False
      with old assms(6) show ?thesis by (auto simp: set_add_def f new)
    qed
  qed
  from mem cnt show ?thesis by (simp add: counted_by_first_occurrence_def)
qed

lemma process_row_cases:
  assumes "process_row T r st = Inr st'"
  obtains (skip) "st' = st" and "\<forall>uid. \<not> counts_row T r uid"
  | (count) uid location f t where "r ''uid'' = Some uid" and "r ''state'' = Some location"
      and "location \<noteq> STOP" and "location \<in> T"
      and "count_in_file r location (snd st) = Inr f"
      and "count_in_total r location (fst st) = Inr t" and "st' = (t, f)"
proof -
  from assms obtain location where loc: "r ''state'' = Some location"
    by (cases "r ''state''") (simp_all add: process_row_def getitem_def)
  show thesis
  proof (cases "location \<noteq> STOP \<and> location \<in> T \<and> ''uid'' \<in> dom r")
    case False
    with loc have "process_row T r st = Inr st"
      by (auto simp: process_row_def getitem_def domIff)
    with assms have "st' = st" by simp
    moreover from False loc have "\<forall>uid. \<not> counts_row T r uid" by (auto simp: counts_row_def)
    ultimately show thesis by (rule skip)
  next
    case True
    then obtain uid where uid: "r ''uid'' = Some uid" by auto
    from assms loc True obtain f t where
      "count_in_file r location (snd st) = Inr f" "count_in_total r location (fst st) = Inr t"
      "st' = (t, f)"
      by (auto simp: process_row_def getitem_def split: sum.splits)
    with uid loc True show thesis by (intro count) simp_all
  qed
qed

lemma process_row_first_occurrence_file:
  assumes "process_row T r st = Inr st'"
    and "counted_by_first_occurrence T hf (file_uuids (snd st)) (file_location_counts (snd st))"
  shows "counted_by_first_occurrence T (hf @ [r]) (file_uuids (snd st')) (file_location_counts (snd st'))"
  using assms(1)
proof (cases rule: process_row_cases)
  case skip
  then show ?thesis using first_occurrence_same [OF assms(2), of r] by simp
next
  case (count uid location f t)
  from count(1) have only: "\<forall>u. counts_row T r u \<longrightarrow> u = uid" by (simp add: counts_row_def)
  have "counted_by_first_occurrence T (hf @ [r]) (file_uuids f) (file_location_counts f)"
  proof (cases "uid \<in> set (file_uuids (snd st))")
    case True
    with count have "f = snd st" by (simp add: count_in_file_def getitem_def)
    with True only show ?thesis using first_occurrence_same [OF assms(2), of r] by auto
  next
    case False
    with count obtain c where c: "file_location_counts (snd st) location = Some c"
      and "f = \<lparr>file_uuids = set_add uid (file_uuids (snd st)),
               file_location_counts = (file_location_counts (snd st))(location \<mapsto> c + 1)\<rparr>"
      by (auto simp: count_in_file_def getitem_def increment_def split: option.splits)
    then show ?thesis
      using first_occurrence_new [of T hf "file_uuids (snd st)" "file_location_counts (snd st)" r uid location c]
        assms(2) count False by simp
  qed
  with count show ?thesis by simp
qed

lemma process_row_first_occurrence_total:
  assumes "process_row T r st = Inr st'"
    and "counted_by_first_occurrence T h (uuids (fst st)) (location_counts (fst st))"
  shows "counted_by_first_occurrence T (h @ [r]) (uuids (fst st')) (location_counts (fst st'))"
  using assms(1)
proof (cases rule: process_row_cases)
  case skip
  then show ?thesis using first_occurrence_same [OF assms(2), of r] by simp
next
  case (count uid location f t)
  from count(1) have only: "\<forall>u. counts_row T r u \<longrightarrow> u = uid" by (simp add: counts_row_def)
  have "counted_by_first_occurrence T (h @ [r]) (uuids t) (location_counts t)"
  proof (cases "uid \<in> set (uuids (fst st))")
    case True
    with count have "t = fst st" by (simp add: count_in_total_def getitem_def)
    with True only show ?thesis using first_occurrence_same [OF assms(2), of r] by auto
  next
    case False
    with count obtain c where c: "location_counts (fst st) location = Some c"
      and "t = \<lparr>uuids = set_add uid (uuids (fst st)),
               location_counts = (location_counts (fst st))(location \<mapsto> c + 1)\<rparr>"
      by (auto simp: count_in_total_def getitem_def increment_def split: option.splits)
    then show ?thesis
      using first_occurrence_new [of T h "uuids (fst st)" "location_counts (fst st)" r uid location c]
        assms(2) count False by simp
  qed
  with count show ?thesis by simp
qed

lemma scan_rows_first_occurrence_file:
  "scan_rows T rows st = Inr st' \<Longrightarrow>
   counted_by_first_occurrence T hf (file_uuids (snd st)) (file_location_counts (snd st)) \<Longrightarrow>
   counted_by_first_occurrence T (hf @ rows) (file_uuids (snd st')) (file_location_counts (snd st'))"
proof (induction rows arbitrary: st hf)
  case Nil
  then show ?case by simp
next
  case (Cons r rows)
  from Cons.prems(1) obtain st1 where
    s: "process_row T r st = Inr st1" "scan_rows T rows st1 = Inr st'"
    by (auto split: sum.splits)
  from Cons.IH [OF s(2) process_row_first_occurrence_file [OF s(1) Cons.prems(2)]]
  show ?case by simp
qed

lemma scan_rows_first_occurrence_total:
  "scan_rows T rows st = Inr st' \<Longrightarrow>
   counted_by_first_occurrence T h (uuids (fst st)) (location_counts (fst st)) \<Longrightarrow>
   counted_by_first_occurrence T (h @ rows) (uuids (fst st')) (location_counts (fst st'))"
proof (induction rows arbitrary: st h)
  case Nil
  then show ?case by simp
next
  case (Cons r rows)
  from Cons.prems(1) obtain st1 where
    s: "process_row T r st = Inr st1" "scan_rows T rows st1 = Inr st'"
    by (auto split: sum.splits)
  from Cons.IH [OF s(2) process_row_first_occurrence_total [OF s(1) Cons.prems(2)]]
  show ?case by simp
qed

lemma scan_file_first_occurrence:
  assumes "scan_rows T data (t, new_file T) = Inr st"
  shows "counted_by_first_occurrence T data (file_uuids (snd st)) (file_location_counts (snd st))"
proof -
  have "counted_by_first_occurrence T [] (file_uuids (snd (t, new_file T)))
      (file_location_counts (snd (t, new_file T)))"
    by (simp add: new_file_def first_occurrence_zero)
  from scan_rows_first_occurrence_file [OF assms this] show ?thesis by simp
qed

lemma scan_files_first_occurrence:
  "scan_files T files (t, rs) = Inr (t', rs') \<Longrightarrow>
   counted_by_first_occurrence T h (uuids t) (location_counts t) \<Longrightarrow>
   counted_by_first_occurrence T (h @ concat files) (uuids t') (location_counts t')"
proof (induction files arbitrary: t rs h)
  case Nil
  then show ?case by simp
next
  case (Cons data files)
  from Cons.prems(1) obtain st where
    s: "scan_rows T data (t, new_file T) = Inr st"
       "scan_files T files (fst st, rs @ [report_of st]) = Inr (t', rs')"
    by (auto split: sum.splits)
  from scan_rows_first_occurrence_total [OF s(1), of h] Cons.prems(2)
  have "counted_by_first_occurrence T (h @ data) (uuids (fst st)) (location_counts (fst st))"
    by simp
  from Cons.IH [OF s(2) this] show ?case by simp
qed

lemma scan_all_first_occurrence:
  assumes "scan_files T files (no_totals T, []) = Inr (t, rs)"
  shows "counted_by_first_occurrence T (concat files) (uuids t) (location_counts t)"
proof -
  have "counted_by_first_occurrence T [] (uuids (no_totals T)) (location_counts (no_totals T))"
    by (simp add: no_totals_def first_occurrence_zero)
  from scan_files_first_occurrence [OF assms this] show ?thesis by simp
qed

text \<open>
  Claim C9. A row whose state is a target location and which has no column "uid" leaves the
  cumulative and the per-file state as they are: no counter and no set changes. Reading
  \<^verbatim>\<open>row["uid"]\<close> therefore never fails: while the counters have the target locations as
  keys, the only failure of the loop body is a row without the column "state".
\<close>

theorem row_without_uid_skipped:
  "(r ''state'' = Some location \<and> location \<in> T \<and> ''uid'' \<notin> dom r \<longrightarrow> process_row T r st = Inr st) \<and>
   (T \<subseteq> dom (location_counts (fst st)) \<and> T \<subseteq> dom (file_location_counts (snd st)) \<longrightarrow>
      (\<forall>e. process_row T r st = Inl e \<longrightarrow> e = KeyError ''state'' \<and> ''state'' \<notin> dom r))"
proof (intro conjI impI allI)
  assume "r ''state'' = Some location \<and> location \<in> T \<and> ''uid'' \<notin> dom r"
  then show "process_row T r st = Inr st"
    by (simp add: process_row_def getitem_def)
next
  fix e
  assume "T \<subseteq> dom (location_counts (fst st)) \<and> T \<subseteq> dom (file_location_counts (snd st))"
    and "process_row T r st = Inl e"
  then show "e = KeyError ''state''" "''state'' \<notin> dom r"
    using process_row_error [of T st r e] by simp_all
qed

theorem row_without_uid_skipped_witness:
  "process_row example_targets [''state'' \<mapsto> ''galmudug''] (no_totals example_targets, new_file example_targets)
     = Inr (no_totals example_targets, new_file example_targets) \<and>
   process_row example_targets [''uid'' \<mapsto> ''avf-phone-uuid-1'']
     (no_totals example_targets, new_file example_targets) = Inl (KeyError ''state'') \<and>
   ''state'' \<notin> dom [''uid'' \<mapsto> ''avf-phone-uuid-1'']"
proof (intro conjI)
  have "[''state'' \<mapsto> ''galmudug''] ''state'' = Some ''galmudug'' \<and> ''galmudug'' \<in> example_targets \<and>
      ''uid'' \<notin> dom [''state'' \<mapsto> ''galmudug'']"
    by (simp add: example_targets_def TARGET_LOCATIONS_def)
  with row_without_uid_skipped [of "[''state'' \<mapsto> ''galmudug'']" "''galmudug''" example_targets
      "(no_totals example_targets, new_file example_targets)", THEN conjunct1]
  show "process_row example_targets [''state'' \<mapsto> ''galmudug''] (no_totals example_targets, new_file example_targets)
     = Inr (no_totals example_targets, new_file example_targets)" by (rule mp)
next
  show e: "process_row example_targets [''uid'' \<mapsto> ''avf-phone-uuid-1'']
     (no_totals example_targets, new_file example_targets) = Inl (KeyError ''state'')"
    by (rule example_no_state)
  have d: "example_targets \<subseteq> dom (location_counts (fst (no_totals example_targets, new_file example_targets))) \<and>
      example_targets \<subseteq> dom (file_location_counts (snd (no_totals example_targets, new_file example_targets)))"
    by (auto simp: no_totals_def new_file_def zero_counts_def)
  from row_without_uid_skipped [of "[''uid'' \<mapsto> ''avf-phone-uuid-1'']" _ example_targets
      "(no_totals example_targets, new_file example_targets)", THEN conjunct2] d
  have "\<forall>e. process_row example_targets [''uid'' \<mapsto> ''avf-phone-uuid-1'']
     (no_totals example_targets, new_file example_targets) = Inl e \<longrightarrow>
       e = KeyError ''state'' \<and> ''state'' \<notin> dom [''uid'' \<mapsto> ''avf-phone-uuid-1'']"
    by (rule mp)
  with e show "''state'' \<notin> dom [''uid'' \<mapsto> ''avf-phone-uuid-1'']" by simp
qed

text \<open>
  Claim C10. The counting invariant holds at the start of the scan, is kept by every row, by
  every run of rows and by the start of a new file; so after every row the cumulative
  counters add up to the size of the cumulative uuid set and the per-file counters add up to
  the size of the file's uuid set, and every log line of a complete scan reports figures
  that agree. Each uid is counted once, under the location of its first occurrence: within
  a file for the per-file counters, over all files in order for the cumulative ones.
\<close>

theorem counters_add_up:
  "scan_inv (TARGET_LOCATIONS g s) (no_totals (TARGET_LOCATIONS g s), new_file (TARGET_LOCATIONS g s)) \<and>
   (scan_inv (TARGET_LOCATIONS g s) st \<and> process_row (TARGET_LOCATIONS g s) r st = Inr st' \<longrightarrow>
      scan_inv (TARGET_LOCATIONS g s) st') \<and>
   (scan_inv (TARGET_LOCATIONS g s) st \<and> scan_rows (TARGET_LOCATIONS g s) rows st = Inr st'' \<longrightarrow>
      scan_inv (TARGET_LOCATIONS g s) st'') \<and>
   (scan_inv (TARGET_LOCATIONS g s) st \<longrightarrow>
      scan_inv (TARGET_LOCATIONS g s) (fst st, new_file (TARGET_LOCATIONS g s))) \<and>
   (scan_rows (TARGET_LOCATIONS g s) data (t0, new_file (TARGET_LOCATIONS g s)) = Inr st1 \<longrightarrow>
      counted_by_first_occurrence (TARGET_LOCATIONS g s) data
        (file_uuids (snd st1)) (file_location_counts (snd st1))) \<and>
   (scan_files (TARGET_LOCATIONS g s) csv_inputs (no_totals (TARGET_LOCATIONS g s), []) = Inr (t, rs) \<longrightarrow>
      counted (TARGET_LOCATIONS g s) (uuids t) (location_counts t) \<and>
      (\<forall>rep\<in>set rs. report_ok (TARGET_LOCATIONS g s) rep) \<and>
      counted_by_first_occurrence (TARGET_LOCATIONS g s) (concat csv_inputs) (uuids t) (location_counts t))"
proof -
  let ?T = "TARGET_LOCATIONS g s"
  have fin: "finite ?T" by (rule finite_TARGET_LOCATIONS)
  have zero: "counted ?T [] (zero_counts ?T)" using fin by (rule counted_zero)
  have init: "scan_inv ?T (no_totals ?T, new_file ?T)"
    using zero by (simp add: scan_inv_def no_totals_def new_file_def)
  have row: "scan_inv ?T st \<and> process_row ?T r st = Inr st' \<longrightarrow> scan_inv ?T st'"
    using process_row_keeps_inv [OF fin] by blast
  have rows: "scan_inv ?T st \<and> scan_rows ?T rows st = Inr st'' \<longrightarrow> scan_inv ?T st''"
    using scan_rows_keeps_inv [OF fin] by blast
  have newf: "scan_inv ?T st \<longrightarrow> scan_inv ?T (fst st, new_file ?T)"
    using zero by (simp add: scan_inv_def new_file_def)
  have one: "scan_rows ?T data (t0, new_file ?T) = Inr st1 \<longrightarrow>
      counted_by_first_occurrence ?T data (file_uuids (snd st1)) (file_location_counts (snd st1))"
    by (rule impI) (rule scan_file_first_occurrence)
  have run: "scan_files ?T csv_inputs (no_totals ?T, []) = Inr (t, rs) \<longrightarrow>
      counted ?T (uuids t) (location_counts t) \<and> (\<forall>rep\<in>set rs. report_ok ?T rep) \<and>
      counted_by_first_occurrence ?T (concat csv_inputs) (uuids t) (location_counts t)"
  proof
    assume a: "scan_files ?T csv_inputs (no_totals ?T, []) = Inr (t, rs)"
    have "counted ?T (uuids (no_totals ?T)) (location_counts (no_totals ?T))"
      using zero by (simp add: no_totals_def)
    moreover have "\<forall>rep\<in>set ([] :: file_report list). report_ok ?T rep" by simp
    ultimately have "counted ?T (uuids t) (location_counts t) \<and> (\<forall>rep\<in>set rs. report_ok ?T rep)"
      using a by (rule scan_files_keeps_inv [OF fin])
    moreover from a have "counted_by_first_occurrence ?T (concat csv_inputs) (uuids t) (location_counts t)"
      by (rule scan_all_first_occurrence)
    ultimately show "counted ?T (uuids t) (location_counts t) \<and> (\<forall>rep\<in>set rs. report_ok ?T rep) \<and>
      counted_by_first_occurrence ?T (concat csv_inputs) (uuids t) (location_counts t)"
      by simp
  qed
  from init row rows newf one run show ?thesis by (intro conjI)
qed

theorem counters_add_up_witness:
  "scan_inv example_targets
     (\<lparr>uuids = [''avf-phone-uuid-1''], location_counts = (zero_counts example_targets)(''galmudug'' \<mapsto> 1)\<rparr>,
      \<lparr>file_uuids = [''avf-phone-uuid-1''],
       file_location_counts = (zero_counts example_targets)(''galmudug'' \<mapsto> 1)\<rparr>) \<and>
   (\<exists>t rs. scan_files example_targets
      [[example_row ''avf-phone-uuid-1'' ''galmudug'', example_row ''avf-phone-uuid-2'' ''south west state'']]
      (no_totals example_targets, []) = Inr (t, rs) \<and> length (uuids t) = 2 \<and>
      counted example_targets (uuids t) (location_counts t))"
proof (rule conjI)
  note c = counters_add_up [where g = "''galmudug''" and s = "''south west state''"
      and st = "(no_totals example_targets, new_file example_targets)"
      and r = "example_row ''avf-phone-uuid-1'' ''galmudug''"
      and st' = "(\<lparr>uuids = [''avf-phone-uuid-1''], location_counts = (zero_counts example_targets)(''galmudug'' \<mapsto> 1)\<rparr>,
        \<lparr>file_uuids = [''avf-phone-uuid-1''],
         file_location_counts = (zero_counts example_targets)(''galmudug'' \<mapsto> 1)\<rparr>)",
      folded example_targets_def]
  from c [THEN conjunct1] example_first_row
  have "scan_inv example_targets (no_totals example_targets, new_file example_targets) \<and>
     process_row example_targets (example_row ''avf-phone-uuid-1'' ''galmudug'')
       (no_totals example_targets, new_file example_targets) =
     Inr (\<lparr>uuids = [''avf-phone-uuid-1''], location_counts = (zero_counts example_targets)(''galmudug'' \<mapsto> 1)\<rparr>,
        \<lparr>file_uuids = [''avf-phone-uuid-1''],
         file_location_counts = (zero_counts example_targets)(''galmudug'' \<mapsto> 1)\<rparr>)"
    by (rule conjI)
  with c [THEN conjunct2, THEN conjunct1]
  show "scan_inv example_targets
     (\<lparr>uuids = [''avf-phone-uuid-1''], location_counts = (zero_counts example_targets)(''galmudug'' \<mapsto> 1)\<rparr>,
      \<lparr>file_uuids = [''avf-phone-uuid-1''],
       file_location_counts = (zero_counts example_targets)(''galmudug'' \<mapsto> 1)\<rparr>)"
    by (rule mp)
next
  let ?files = "[[example_row ''avf-phone-uuid-1'' ''galmudug'',
                  example_row ''avf-phone-uuid-2'' ''south west state'']]"
  from example_scan obtain t rs where
    scan: "scan_files example_targets ?files (no_totals example_targets, []) = Inr (t, rs)"
    and us: "uuids t = [''avf-phone-uuid-1'', ''avf-phone-uuid-2'']"
    by (elim exE conjE)
  from counters_add_up [where g = "''galmudug''" and s = "''south west state''"
      and csv_inputs = ?files and t = t and rs = rs,
      folded example_targets_def, THEN conjunct2, THEN conjunct2, THEN conjunct2, THEN conjunct2,
      THEN conjunct2] scan
  have "counted example_targets (uuids t) (location_counts t) \<and>
      (\<forall>rep\<in>set rs. report_ok example_targets rep) \<and>
      counted_by_first_occurrence example_targets (concat ?files) (uuids t) (location_counts t)"
    by (rule mp)
  then have "counted example_targets (uuids t) (location_counts t)" by (rule conjunct1)
  moreover from us have "length (uuids t) = 2" by simp
  ultimately show "\<exists>t rs. scan_files example_targets ?files (no_totals example_targets, []) = Inr (t, rs) \<and>
      length (uuids t) = 2 \<and> counted example_targets (uuids t) (location_counts t)"
    using scan by (intro exI conjI)
qed

section \<open>The conversion and the export\<close>

lemma convert_fst_indep:
  "fst (convert lut us (pn, sk)) = fst (convert lut us (pn, sk'))"
  by (induction us arbitrary: pn sk sk') (auto split: option.splits)

lemma convert_cong_lut:
  "\<forall>u\<in>set us. lut u = lut' u \<Longrightarrow> convert lut us acc = convert lut' us acc"
proof (induction us arbitrary: acc)
  case Nil
  then show ?case by simp
next
  case (Cons u us)
  then show ?case by (cases acc) (simp split: option.splits)
qed

lemma convert_batch: "convert (uuid_to_data_batch table us) us acc = convert table us acc"
  by (rule convert_cong_lut) (simp add: uuid_to_data_batch_def)

lemma convert_sets:
  "set (fst (convert lut us (pn, sk))) = set pn \<union> {CHR ''+'' # n | u n. u \<in> set us \<and> lut u = Some n} \<and>
   set (snd (convert lut us (pn, sk))) = set sk \<union> {u \<in> set us. lut u = None} \<and>
   (distinct pn \<longrightarrow> distinct (fst (convert lut us (pn, sk)))) \<and>
   (distinct sk \<longrightarrow> distinct (snd (convert lut us (pn, sk))))"
proof (induction us arbitrary: pn sk)
  case Nil
  then show ?case by simp
next
  case (Cons u us)
  show ?case
  proof (cases "lut u")
    case None
    with Cons [of pn "set_add u sk"] show ?thesis
      by (auto simp: set_set_add distinct_set_add)
  next
    case (Some n)
    with Cons [of "set_add (CHR ''+'' # n) pn" sk] show ?thesis
      by (auto simp: set_set_add distinct_set_add)
  qed
qed

lemma convert_remove:
  "lut uid = None \<Longrightarrow> fst (convert lut us (pn, sk)) = fst (convert lut (removeAll uid us) (pn, sk))"
proof (induction us arbitrary: pn sk)
  case Nil
  then show ?case by simp
next
  case (Cons u us)
  show ?case
  proof (cases "u = uid")
    case True
    with Cons show ?thesis
      using convert_fst_indep [of lut us pn "set_add uid sk" sk] by simp
  next
    case False
    with Cons show ?thesis by (simp split: option.splits)
  qed
qed

lemma skipped_count:
  assumes "lut uid = None" and "uid \<in> set us"
  shows "length (snd (convert lut us ([], []))) = Suc (length (snd (convert lut (removeAll uid us) ([], []))))"
proof -
  let ?a = "snd (convert lut us ([], []))" and ?b = "snd (convert lut (removeAll uid us) ([], []))"
  have da: "distinct ?a" and db: "distinct ?b"
    using convert_sets [of lut us "[]" "[]"] convert_sets [of lut "removeAll uid us" "[]" "[]"] by simp_all
  have sa: "set ?a = {u \<in> set us. lut u = None}"
    using convert_sets [of lut us "[]" "[]"] by simp
  have sb: "set ?b = {u \<in> set us. lut u = None} - {uid}"
    using convert_sets [of lut "removeAll uid us" "[]" "[]"] by auto
  from sa sb assms have "set ?a = insert uid (set ?b)" and "uid \<notin> set ?b" by auto
  then have "card (set ?a) = Suc (card (set ?b))" by simp
  with da db show ?thesis by (simp add: distinct_card)
qed

text \<open>
  Claim C7. Two input files, each with one row of the same uid and a target location as
  state (not the opt-out code): when the identity table resolves the uid, the written file
  has the header and exactly one record, the number of that uid; each file's log line
  reports one contact and the counter 1 for the file's location, and the running figures
  stay at one contact, counted once under the location of its first occurrence.
\<close>

theorem same_uid_in_two_files:
  assumes "row1 ''uid'' = Some uid" and "row2 ''uid'' = Some uid"
    and "row1 ''state'' = Some location1" and "row2 ''state'' = Some location2"
    and "location1 \<in> TARGET_LOCATIONS g s" and "location2 \<in> TARGET_LOCATIONS g s"
    and "location1 \<noteq> STOP" and "location2 \<noteq> STOP"
    and "table uid = Some number"
  shows "\<exists>out. export_initial_contacts (TARGET_LOCATIONS g s) table [[row1], [row2]] = Inr out \<and>
     csv_output out = [[''URN:Tel'', ''Name''], [CHR ''+'' # number, []]] \<and>
     phone_numbers out = [CHR ''+'' # number] \<and>
     skipped_uuids out = [] \<and>
     all_uuids out = [uid] \<and>
     reports out =
       [\<lparr>found = 1, per_location = (zero_counts (TARGET_LOCATIONS g s))(location1 \<mapsto> 1),
         running_total = 1, running_per_location = (zero_counts (TARGET_LOCATIONS g s))(location1 \<mapsto> 1)\<rparr>,
        \<lparr>found = 1, per_location = (zero_counts (TARGET_LOCATIONS g s))(location2 \<mapsto> 1),
         running_total = 1, running_per_location = (zero_counts (TARGET_LOCATIONS g s))(location1 \<mapsto> 1)\<rparr>]"
proof -
  let ?T = "TARGET_LOCATIONS g s"
  let ?t1 = "\<lparr>uuids = [uid], location_counts = (zero_counts ?T)(location1 \<mapsto> 1)\<rparr>"
  let ?f1 = "\<lparr>file_uuids = [uid], file_location_counts = (zero_counts ?T)(location1 \<mapsto> 1)\<rparr>"
  let ?f2 = "\<lparr>file_uuids = [uid], file_location_counts = (zero_counts ?T)(location2 \<mapsto> 1)\<rparr>"
  have z: "zero_counts ?T location1 = Some 0" "zero_counts ?T location2 = Some 0"
    using assms(5,6) by (simp_all add: zero_counts_def)
  have r1: "process_row ?T row1 (no_totals ?T, new_file ?T) = Inr (?t1, ?f1)"
    using process_row_new_uid [of row1 uid location1 ?T "no_totals ?T" "new_file ?T" 0 0] assms z
    by (simp add: no_totals_def new_file_def)
  have r2: "process_row ?T row2 (?t1, new_file ?T) = Inr (?t1, ?f2)"
    using process_row_seen_uid [of row2 uid location2 ?T ?t1 "new_file ?T" 0] assms z
    by (simp add: new_file_def)
  have s1: "scan_rows ?T [row1] (no_totals ?T, new_file ?T) = Inr (?t1, ?f1)"
    by (simp only: scan_rows.simps r1 sum.case)
  have s2: "scan_rows ?T [row2] (?t1, new_file ?T) = Inr (?t1, ?f2)"
    by (simp only: scan_rows.simps r2 sum.case)
  have scan: "scan_files ?T [[row1], [row2]] (no_totals ?T, []) =
      Inr (?t1, [report_of (?t1, ?f1), report_of (?t1, ?f2)])"
    by (simp only: scan_files.simps s1 s2 sum.case fst_conv append.simps)
  have conv: "convert (uuid_to_data_batch table [uid]) [uid] ([], []) = ([CHR ''+'' # number], [])"
    using assms(9) by (simp add: uuid_to_data_batch_def set_add_def)
  have "export_initial_contacts ?T table [[row1], [row2]] =
      Inr \<lparr>reports = [report_of (?t1, ?f1), report_of (?t1, ?f2)], all_uuids = [uid],
           phone_numbers = [CHR ''+'' # number], skipped_uuids = [],
           csv_output = contacts_csv [CHR ''+'' # number]\<rparr>"
    by (simp only: export_initial_contacts_def scan sum.case prod.case Let_def totals.simps conv
        fst_conv snd_conv)
  then show ?thesis
    by (simp add: contacts_csv_def report_of_def)
qed

theorem same_uid_in_two_files_witness:
  "\<exists>out. export_initial_contacts example_targets example_table
       [[example_row ''avf-phone-uuid-1'' ''galmudug''], [example_row ''avf-phone-uuid-1'' ''galmudug'']] = Inr out \<and>
     csv_output out = [[''URN:Tel'', ''Name''], [''+252610000001'', []]] \<and>
     map found (reports out) = [1, 1] \<and> map running_total (reports out) = [1, 1]"
proof -
  have "\<exists>out. export_initial_contacts (TARGET_LOCATIONS ''galmudug'' ''south west state'') example_table
       [[example_row ''avf-phone-uuid-1'' ''galmudug''], [example_row ''avf-phone-uuid-1'' ''galmudug'']] = Inr out \<and>
     csv_output out = [[''URN:Tel'', ''Name''], [CHR ''+'' # ''252610000001'', []]] \<and>
     phone_numbers out = [CHR ''+'' # ''252610000001''] \<and>
     skipped_uuids out = [] \<and>
     all_uuids out = [''avf-phone-uuid-1''] \<and>
     reports out =
       [\<lparr>found = 1, per_location = (zero_counts (TARGET_LOCATIONS ''galmudug'' ''south west state''))(''galmudug'' \<mapsto> 1),
         running_total = 1, running_per_location = (zero_counts (TARGET_LOCATIONS ''galmudug'' ''south west state''))(''galmudug'' \<mapsto> 1)\<rparr>,
        \<lparr>found = 1, per_location = (zero_counts (TARGET_LOCATIONS ''galmudug'' ''south west state''))(''galmudug'' \<mapsto> 1),
         running_total = 1, running_per_location = (zero_counts (TARGET_LOCATIONS ''galmudug'' ''south west state''))(''galmudug'' \<mapsto> 1)\<rparr>]"
    by (rule same_uid_in_two_files)
      (simp_all add: example_row_def example_table_def TARGET_LOCATIONS_def STOP_def)
  then obtain out where
    o: "export_initial_contacts example_targets example_table
       [[example_row ''avf-phone-uuid-1'' ''galmudug''], [example_row ''avf-phone-uuid-1'' ''galmudug'']] = Inr out"
      "csv_output out = [[''URN:Tel'', ''Name''], [''+252610000001'', []]]"
    and r: "reports out =
       [\<lparr>found = 1, per_location = (zero_counts (TARGET_LOCATIONS ''galmudug'' ''south west state''))(''galmudug'' \<mapsto> 1),
         running_total = 1, running_per_location = (zero_counts (TARGET_LOCATIONS ''galmudug'' ''south west state''))(''galmudug'' \<mapsto> 1)\<rparr>,
        \<lparr>found = 1, per_location = (zero_counts (TARGET_LOCATIONS ''galmudug'' ''south west state''))(''galmudug'' \<mapsto> 1),
         running_total = 1, running_per_location = (zero_counts (TARGET_LOCATIONS ''galmudug'' ''south west state''))(''galmudug'' \<mapsto> 1)\<rparr>]"
    unfolding example_targets_def by (elim exE conjE)
  from r have "map found (reports out) = [1, 1]" "map running_total (reports out) = [1, 1]"
    by simp_all
  with o show ?thesis by (intro exI conjI)
qed

text \<open>
  Claim C8. A uid that the scan collected and that the identity table does not resolve: the
  export still returns; the uid is in the set of skipped uuids, whose size is one more than
  without it; the phone numbers are those of the run without the uid, one for each number of
  a resolvable uid; the written file has one record per phone number.
\<close>

theorem unresolved_uid_skipped:
  assumes "scan_files T csv_inputs (no_totals T, []) = Inr (t, rs)"
    and "uid \<in> set (uuids t)" and "table uid = None"
  shows "\<exists>out. export_initial_contacts T table csv_inputs = Inr out \<and>
     uid \<in> set (skipped_uuids out) \<and>
     set (skipped_uuids out) = {u \<in> set (uuids t). table u = None} \<and>
     length (skipped_uuids out) = Suc (length (snd (convert table (removeAll uid (uuids t)) ([], [])))) \<and>
     phone_numbers out = fst (convert table (removeAll uid (uuids t)) ([], [])) \<and>
     set (phone_numbers out) = {CHR ''+'' # n | u n. u \<in> set (uuids t) \<and> table u = Some n} \<and>
     csv_output out = [''URN:Tel'', ''Name''] # map (\<lambda>n. [n, []]) (phone_numbers out)"
proof -
  let ?c = "convert table (uuids t) ([], [])"
  let ?out = "\<lparr>reports = rs, all_uuids = uuids t, phone_numbers = fst ?c, skipped_uuids = snd ?c,
     csv_output = contacts_csv (fst ?c)\<rparr>"
  have run: "export_initial_contacts T table csv_inputs = Inr ?out"
    using assms(1) by (simp add: export_initial_contacts_def convert_batch Let_def)
  have sk: "set (snd ?c) = {u \<in> set (uuids t). table u = None}"
    using convert_sets [of table "uuids t" "[]" "[]"] by simp
  have pn: "set (fst ?c) = {CHR ''+'' # n | u n. u \<in> set (uuids t) \<and> table u = Some n}"
    using convert_sets [of table "uuids t" "[]" "[]"] by simp
  have "uid \<in> set (skipped_uuids ?out)" using sk assms(2,3) by simp
  moreover have "set (skipped_uuids ?out) = {u \<in> set (uuids t). table u = None}" using sk by simp
  moreover have "length (skipped_uuids ?out) = Suc (length (snd (convert table (removeAll uid (uuids t)) ([], []))))"
    using skipped_count [of table uid "uuids t"] assms(2,3) by simp
  moreover have "phone_numbers ?out = fst (convert table (removeAll uid (uuids t)) ([], []))"
    using convert_remove [of table uid "uuids t" "[]" "[]"] assms(3) by simp
  moreover have "set (phone_numbers ?out) = {CHR ''+'' # n | u n. u \<in> set (uuids t) \<and> table u = Some n}"
    using pn by simp
  moreover have "csv_output ?out = [''URN:Tel'', ''Name''] # map (\<lambda>n. [n, []]) (phone_numbers ?out)"
    by (simp add: contacts_csv_def)
  ultimately show ?thesis using run by (intro exI [of _ ?out] conjI)
qed

theorem unresolved_uid_skipped_witness:
  "\<exists>out. export_initial_contacts example_targets example_table
      [[example_row ''avf-phone-uuid-1'' ''galmudug'', example_row ''avf-phone-uuid-2'' ''south west state'']]
       = Inr out \<and>
     skipped_uuids out = [''avf-phone-uuid-2''] \<and>
     csv_output out = [[''URN:Tel'', ''Name''], [''+252610000001'', []]]"
proof -
  let ?files = "[[example_row ''avf-phone-uuid-1'' ''galmudug'',
                  example_row ''avf-phone-uuid-2'' ''south west state'']]"
  from example_scan obtain t rs where
    scan: "scan_files example_targets ?files (no_totals example_targets, []) = Inr (t, rs)"
    and us: "uuids t = [''avf-phone-uuid-1'', ''avf-phone-uuid-2'']"
    by (elim exE conjE)
  have m: "''avf-phone-uuid-2'' \<in> set (uuids t)" by (simp add: us)
  have n: "example_table ''avf-phone-uuid-2'' = None" by (simp add: example_table_def)
  from unresolved_uid_skipped [of example_targets ?files t rs "''avf-phone-uuid-2''" example_table,
      OF scan m n] obtain out where
    o: "export_initial_contacts example_targets example_table ?files = Inr out"
    and sk: "''avf-phone-uuid-2'' \<in> set (skipped_uuids out)"
      "length (skipped_uuids out) =
         Suc (length (snd (convert example_table (removeAll ''avf-phone-uuid-2'' (uuids t)) ([], []))))"
    and pn: "phone_numbers out = fst (convert example_table (removeAll ''avf-phone-uuid-2'' (uuids t)) ([], []))"
    and csv: "csv_output out = [''URN:Tel'', ''Name''] # map (\<lambda>n. [n, []]) (phone_numbers out)"
    by (elim exE conjE)
  from pn have p: "phone_numbers out = [''+252610000001'']"
    by (simp add: us example_table_def set_add_def)
  from sk(2) have "length (skipped_uuids out) = 1"
    by (simp add: us example_table_def set_add_def)
  with sk(1) have "skipped_uuids out = [''avf-phone-uuid-2'']"
    by (cases "skipped_uuids out") simp_all
  moreover from csv p have "csv_output out = [[''URN:Tel'', ''Name''], [''+252610000001'', []]]"
    by simp
  ultimately show ?thesis using o by (intro exI conjI)
qed

end
